theory Spec2Isabelle
  imports Main "HOL-Library.Sublist"
begin

section \<open>The ECS service update script (scripts/update-services.sh)\<close>

text \<open>
  The script is a bash program run under \<^verbatim>\<open>set -e\<close>. It reads three environment
  variables and one positional argument, talks to the cluster through the \<^verbatim>\<open>aws\<close>
  command line tool, writes a log to standard output and ends with an exit status.
  The model below keeps exactly these observables: the run is a function of the
  invocation (environment and arguments) and of the answers of the \<^verbatim>\<open>aws\<close> tool, and
  yields the sequence of output lines interleaved with the \<^verbatim>\<open>aws\<close> requests issued,
  and the exit status.
\<close>

subsection \<open>Shell values\<close>

text \<open>Non-ASCII and quote characters of the messages, as the bytes the script prints.\<close>

definition check_mark :: string where
  "check_mark = [CHR 0xE2, CHR 0x9C, CHR 0x93]"

definition bullet :: string where
  "bullet = [CHR 0xE2, CHR 0x80, CHR 0xA2]"

definition squote :: string where
  "squote = [CHR 0x27]"

definition dquote :: string where
  "dquote = [CHR 0x22]"

text \<open>\<^verbatim>\<open>${VAR:-default}\<close>: the default replaces a variable that is unset or empty.\<close>

definition param_default :: "string option \<Rightarrow> string \<Rightarrow> string" where
  "param_default v d = (case v of None \<Rightarrow> d | Some s \<Rightarrow> if s = [] then d else s)"

text \<open>\<^verbatim>\<open>$1\<close> without \<^verbatim>\<open>set -u\<close>: empty when there is no positional argument.\<close>

definition positional1 :: "string list \<Rightarrow> string" where
  "positional1 as = (case as of [] \<Rightarrow> [] | a # _ \<Rightarrow> a)"

text \<open>\<^verbatim>\<open>${array[*]}\<close> inside double quotes: the elements joined by one space.\<close>

fun join_words :: "string list \<Rightarrow> string" where
  "join_words [] = []"
| "join_words [x] = x"
| "join_words (x # y # ys) = x @ '' '' @ join_words (y # ys)"

text \<open>
  \<^verbatim>\<open>$(command)\<close>: the standard output of the command without its NUL bytes and
  without its trailing newlines.
\<close>

definition command_subst :: "string \<Rightarrow> string" where
  "command_subst s =
    rev (dropWhile (\<lambda>ch. ch = CHR 0x0A) (rev (filter (\<lambda>ch. ch \<noteq> CHR 0x00) s)))"

text \<open>
  \<^verbatim>\<open>[ a -eq b ]\<close>: both operands must be integers in the shell's sense (leading white
  space, an optional sign, at least one decimal digit, trailing blanks, a value that fits
  64 bits); the status is 0 when they are equal, 1 when they differ and 2 when an operand
  is not an integer.
\<close>

definition isspace_c :: "char \<Rightarrow> bool" where
  "isspace_c ch = (ch \<in> set [CHR 0x20, CHR 0x09, CHR 0x0A, CHR 0x0B, CHR 0x0C, CHR 0x0D])"

definition whitespace_c :: "char \<Rightarrow> bool" where
  "whitespace_c ch = (ch = CHR 0x20 \<or> ch = CHR 0x09)"

definition isdigit_c :: "char \<Rightarrow> bool" where
  "isdigit_c ch = (48 \<le> (of_char ch :: nat) \<and> (of_char ch :: nat) \<le> 57)"

definition digits_value :: "string \<Rightarrow> int" where
  "digits_value ds = foldl (\<lambda>v d. 10 * v + (int (of_char d) - 48)) 0 ds"

definition legal_number :: "string \<Rightarrow> int option" where
  "legal_number s =
    (let s1 = dropWhile isspace_c s;
         neg = (s1 \<noteq> [] \<and> hd s1 = CHR ''-'');
         s2 = (if s1 \<noteq> [] \<and> (hd s1 = CHR ''-'' \<or> hd s1 = CHR ''+'') then tl s1 else s1);
         ds = takeWhile isdigit_c s2;
         ep = dropWhile whitespace_c (dropWhile isdigit_c s2);
         v = (if neg then - digits_value ds else digits_value ds)
     in if ds = [] \<or> ep \<noteq> [] \<or> v < - (2 ^ 63) \<or> 2 ^ 63 - 1 < v then None else Some v)"

definition test_eq :: "string \<Rightarrow> string \<Rightarrow> nat" where
  "test_eq a b =
    (case legal_number a of
       None \<Rightarrow> 2
     | Some x \<Rightarrow> (case legal_number b of None \<Rightarrow> 2 | Some y \<Rightarrow> if x = y then 0 else 1))"

subsection \<open>Configuration (lines 16-27)\<close>

record invocation =
  env_AWS_REGION :: "string option"
  env_ENVIRONMENT_NAME :: "string option"
  env_WAIT_FOR_STABLE :: "string option"
  args :: "string list"

record config =
  AWS_REGION :: string
  ENVIRONMENT_NAME :: string
  CLUSTER_NAME :: string
  WAIT_FOR_STABLE :: string
  SERVICES :: "string list"

definition configure :: "invocation \<Rightarrow> config" where
  "configure iv =
    (let region = param_default (env_AWS_REGION iv) ''eu-west-1'';
         environment = param_default (env_ENVIRONMENT_NAME iv) ''ecs-trial''
     in \<lparr> AWS_REGION = region,
          ENVIRONMENT_NAME = environment,
          CLUSTER_NAME = environment @ ''-cluster'',
          WAIT_FOR_STABLE = param_default (env_WAIT_FOR_STABLE iv) ''true'',
          SERVICES = (if positional1 (args iv) = []
                      then [''auth'', ''users'', ''tasks'', ''frontend'']
                      else [positional1 (args iv)]) \<rparr>)"

subsection \<open>The collaborator and the observable trace\<close>

text \<open>
  Every \<^verbatim>\<open>aws\<close> command of the script is a request; the tool answers with an exit
  status and the text it writes to standard output. The four \<^verbatim>\<open>describe-services\<close>
  commands differ in their \<^verbatim>\<open>--query\<close>. For one service the script never issues the
  same request twice, so a function from requests to answers describes any sequence of
  answers to a run over distinct services.
\<close>

datatype query = Q_status | Q_runningCount | Q_desiredCount | Q_deployments

datatype request =
    Describe_clusters string string
  | Describe_services string string string query
  | Update_service string string string
  | Wait_services_stable string string string

record world =
  command_v_aws :: nat
  aws :: "request \<Rightarrow> nat \<times> string"

text \<open>
  The trace of a run: \<open>Echo m\<close> is a plain \<^verbatim>\<open>echo\<close> of the line \<open>m\<close>, \<open>Log l m\<close> a call
  of the logging helper of level \<open>l\<close> with the message \<open>m\<close>, \<open>Aws r\<close> the request \<open>r\<close>
  sent to the collaborator, and \<open>Stdout t\<close> the text that an \<^verbatim>\<open>aws\<close> command writes to
  the standard output of the script (when it is neither captured nor redirected).
\<close>

datatype level = INFO | WARNING | ERROR | STEP

datatype event =
    Echo string
  | Log level string
  | Stdout string
  | Aws request

definition log_info :: "string \<Rightarrow> event list" where
  "log_info m = [Log INFO m]"

definition log_warning :: "string \<Rightarrow> event list" where
  "log_warning m = [Log WARNING m]"

definition log_error :: "string \<Rightarrow> event list" where
  "log_error m = [Log ERROR m]"

definition log_step :: "string \<Rightarrow> event list" where
  "log_step m = [Log STEP m]"

definition rule_line :: string where
  "rule_line = ''==========================================''"

definition dash_line :: string where
  "dash_line = ''------------------------------------------''"

subsection \<open>The functions of the script\<close>

text \<open>
  A function of the script yields the events it produces and its status. Where a function
  can end the whole script (\<^verbatim>\<open>exit\<close>, or a failing command under \<^verbatim>\<open>set -e\<close>), the
  status is \<open>Some code\<close> for the exit and \<open>None\<close> for a normal return.
\<close>

definition check_prerequisites :: "config \<Rightarrow> world \<Rightarrow> event list \<times> nat option" where
  "check_prerequisites c w =
    (let t0 = log_step ''Checking prerequisites...'';
         q = Describe_clusters (CLUSTER_NAME c) (AWS_REGION c)
     in if command_v_aws w \<noteq> 0
        then (t0 @ log_error ''AWS CLI is not installed. Please install AWS CLI first.'', Some 1)
        else if fst (aws w q) \<noteq> 0
        then (t0 @ [Aws q] @
              log_error (''ECS cluster '' @ squote @ CLUSTER_NAME c @ squote @
                         '' not found in region '' @ AWS_REGION c), Some 1)
        else (t0 @ [Aws q] @ log_info (''Prerequisites check passed '' @ check_mark), None))"

definition service_name_of :: "config \<Rightarrow> string \<Rightarrow> string" where
  "service_name_of c service = ENVIRONMENT_NAME c @ ''-'' @ service @ ''-service''"

definition update_service :: "config \<Rightarrow> world \<Rightarrow> string \<Rightarrow> event list \<times> nat" where
  "update_service c w service =
    (let service_name = service_name_of c service;
         t0 = log_step (''Updating '' @ service @ '' service...'');
         q = Describe_services (CLUSTER_NAME c) service_name (AWS_REGION c) Q_status;
         service_status = command_subst (snd (aws w q));
         u = Update_service (CLUSTER_NAME c) service_name (AWS_REGION c)
     in if service_status \<noteq> ''ACTIVE''
        then (t0 @ [Aws q] @
              log_error (''Service '' @ squote @ service_name @ squote @
                         '' not found or not active''), 1)
        else if fst (aws w u) = 0
        then (t0 @ [Aws q] @
              log_info (''Forcing new deployment for '' @ service @ '' service...'') @ [Aws u] @
              log_info (''Deployment initiated for '' @ service @ '' service '' @ check_mark), 0)
        else (t0 @ [Aws q] @
              log_info (''Forcing new deployment for '' @ service @ '' service...'') @ [Aws u] @
              log_error (''Failed to update '' @ service @ '' service''), 1))"

definition wait_for_service :: "config \<Rightarrow> world \<Rightarrow> string \<Rightarrow> event list \<times> nat" where
  "wait_for_service c w service =
    (let service_name = service_name_of c service;
         t0 = log_step (''Waiting for '' @ service @ '' service to stabilize...'') @
              log_info ''This may take 5-10 minutes...'';
         q = Wait_services_stable (CLUSTER_NAME c) service_name (AWS_REGION c)
     in if fst (aws w q) = 0
        then (t0 @ [Aws q, Stdout (snd (aws w q))] @
              log_info (service @ '' service is now stable '' @ check_mark), 0)
        else (t0 @ [Aws q, Stdout (snd (aws w q))] @
              log_error (service @ '' service failed to stabilize'') @
              log_error (''Check CloudWatch Logs for details: aws logs tail /ecs/'' @
                         ENVIRONMENT_NAME c @ '' --follow --filter-pattern '' @
                         dquote @ service @ dquote), 1))"

definition get_deployment_status :: "config \<Rightarrow> world \<Rightarrow> string \<Rightarrow> event list \<times> nat" where
  "get_deployment_status c w service =
    (let service_name = service_name_of c service;
         q = Describe_services (CLUSTER_NAME c) service_name (AWS_REGION c) Q_deployments
     in (log_step (''Getting deployment status for '' @ service @ ''...'') @
         [Aws q, Stdout (snd (aws w q))], fst (aws w q)))"

definition check_service_health :: "config \<Rightarrow> world \<Rightarrow> string \<Rightarrow> event list \<times> nat" where
  "check_service_health c w service =
    (let service_name = service_name_of c service;
         qr = Describe_services (CLUSTER_NAME c) service_name (AWS_REGION c) Q_runningCount;
         qd = Describe_services (CLUSTER_NAME c) service_name (AWS_REGION c) Q_desiredCount;
         running_count = command_subst (snd (aws w qr));
         desired_count = command_subst (snd (aws w qd));
         t0 = log_step (''Checking '' @ service @ '' service health...'') @ [Aws qr, Aws qd] @
              log_info (''Running tasks: '' @ running_count @ ''/'' @ desired_count)
     in if test_eq running_count desired_count = 0
        then (t0 @ log_info (service @ '' service is healthy '' @ check_mark), 0)
        else (t0 @ log_warning (service @ '' service is not at desired capacity''), 1))"

subsection \<open>The main function (lines 175-264)\<close>

record run_state =
  out :: "event list"
  failed_services :: "string list"
  updated_services :: "string list"

definition emit :: "event list \<Rightarrow> run_state \<Rightarrow> run_state" where
  "emit t st = st\<lparr>out := out st @ t\<rparr>"

text \<open>Lines 195-206: the update loop. The call is the condition of an \<^verbatim>\<open>if\<close>.\<close>

fun update_loop :: "config \<Rightarrow> world \<Rightarrow> string list \<Rightarrow> run_state \<Rightarrow> run_state" where
  "update_loop c w [] st = st"
| "update_loop c w (service # rest) st =
    (let st1 = emit ([Echo ''''] @ log_info dash_line @
                     log_info (''Updating '' @ service @ '' service'') @
                     log_info dash_line) st;
         st2 = emit (fst (update_service c w service)) st1
     in update_loop c w rest
          (if snd (update_service c w service) = 0
           then st2\<lparr>updated_services := updated_services st2 @ [service]\<rparr>
           else st2\<lparr>failed_services := failed_services st2 @ [service]\<rparr>))"

text \<open>Lines 221-226: the wait loop. The call is negated in the condition of an \<^verbatim>\<open>if\<close>.\<close>

fun wait_loop :: "config \<Rightarrow> world \<Rightarrow> string list \<Rightarrow> run_state \<Rightarrow> run_state" where
  "wait_loop c w [] st = st"
| "wait_loop c w (service # rest) st =
    (let st1 = emit ([Echo ''''] @ fst (wait_for_service c w service)) st
     in wait_loop c w rest
          (if snd (wait_for_service c w service) \<noteq> 0
           then st1\<lparr>failed_services := failed_services st1 @ [service]\<rparr>
           else st1))"

text \<open>
  Lines 235-239: the health loop. Its two calls are plain commands of the loop body, so
  under \<^verbatim>\<open>set -e\<close> (line 7) a non-zero status of either ends the script with that
  status.
\<close>

fun health_loop :: "config \<Rightarrow> world \<Rightarrow> string list \<Rightarrow> run_state \<Rightarrow> run_state \<times> nat option" where
  "health_loop c w [] st = (st, None)"
| "health_loop c w (service # rest) st =
    (let st1 = emit ([Echo ''''] @ fst (check_service_health c w service)) st;
         st2 = emit (fst (get_deployment_status c w service)) st1
     in if snd (check_service_health c w service) \<noteq> 0
        then (st1, Some (snd (check_service_health c w service)))
        else if snd (get_deployment_status c w service) \<noteq> 0
        then (st2, Some (snd (get_deployment_status c w service)))
        else health_loop c w rest st2)"

definition header :: "config \<Rightarrow> event list" where
  "header c =
    [Echo ''''] @ log_info rule_line @ log_info ''  ECS Service Update'' @ log_info rule_line @
    log_info (''Environment: '' @ ENVIRONMENT_NAME c) @
    log_info (''Cluster: '' @ CLUSTER_NAME c) @
    log_info (''Region: '' @ AWS_REGION c) @
    log_info (''Services: '' @ join_words (SERVICES c)) @
    log_info (''Wait for stable: '' @ WAIT_FOR_STABLE c) @
    [Echo '''']"

definition wait_banner :: "event list" where
  "wait_banner =
    [Echo ''''] @ log_info rule_line @ log_info ''  Waiting for Deployments to Complete'' @
    log_info rule_line"

definition health_banner :: "event list" where
  "health_banner =
    [Echo ''''] @ log_info rule_line @ log_info ''  Final Health Check'' @ log_info rule_line"

definition summary_banner :: "event list" where
  "summary_banner =
    [Echo ''''] @ log_info rule_line @ log_info ''  Update Summary'' @ log_info rule_line"

definition success_report :: "config \<Rightarrow> string list \<Rightarrow> event list" where
  "success_report c updated =
    log_info (''All services updated successfully! '' @ check_mark) @ [Echo ''''] @
    log_info ''Updated services:'' @
    map (\<lambda>service. Echo (''  '' @ bullet @ '' '' @ service @ ''-service'')) updated @
    [Echo ''''] @ log_info ''Monitor your deployment:'' @
    [Echo (''  aws ecs describe-services --cluster '' @ CLUSTER_NAME c @ '' --services '' @
           ENVIRONMENT_NAME c @ ''-auth-service --region '' @ AWS_REGION c),
     Echo (''  aws logs tail /ecs/'' @ ENVIRONMENT_NAME c @ '' --follow'')]"

definition failure_report :: "config \<Rightarrow> string list \<Rightarrow> event list" where
  "failure_report c failed =
    log_error (''The following services failed: '' @ join_words failed) @
    log_error (''Check logs with: aws logs tail /ecs/'' @ ENVIRONMENT_NAME c @ '' --follow'')"

definition main :: "config \<Rightarrow> world \<Rightarrow> run_state \<times> nat" where
  "main c w =
    (let st0 = \<lparr>out = header c, failed_services = [], updated_services = []\<rparr>;
         st1 = emit (fst (check_prerequisites c w)) st0
     in case snd (check_prerequisites c w) of
          Some code \<Rightarrow> (st1, code)
        | None \<Rightarrow>
           (let st2 = update_loop c w (SERVICES c) st1
            in if length (failed_services st2) > 0
               then (emit (log_error (''Failed to update services: '' @
                                      join_words (failed_services st2))) st2, 1)
               else
                (let st3 = (if WAIT_FOR_STABLE c = ''true''
                            then wait_loop c w (updated_services st2) (emit wait_banner st2)
                            else st2);
                     st4 = emit health_banner st3
                 in case health_loop c w (updated_services st4) st4 of
                      (st5, Some code) \<Rightarrow> (st5, code)
                    | (st5, None) \<Rightarrow>
                       (let st6 = emit summary_banner st5
                        in if length (failed_services st6) = 0
                           then (emit (success_report c (updated_services st6)) st6, 0)
                           else (emit (failure_report c (failed_services st6)) st6, 1)))))"

text \<open>The script: configuration, then \<^verbatim>\<open>main\<close> (line 267).\<close>

definition script :: "invocation \<Rightarrow> world \<Rightarrow> run_state \<times> nat" where
  "script iv w = main (configure iv) w"

definition exit_code :: "run_state \<times> nat \<Rightarrow> nat" where
  "exit_code r = snd r"

definition trace :: "run_state \<times> nat \<Rightarrow> event list" where
  "trace r = out (fst r)"

subsection \<open>Observations on a run\<close>

text \<open>
  The requests sent to the collaborator, in order, and the plain \<^verbatim>\<open>echo\<close> lines. The
  list of updated services of the success report (line 252) is a sequence of such lines.
\<close>

fun requests :: "event list \<Rightarrow> request list" where
  "requests [] = []"
| "requests (Aws r # t) = r # requests t"
| "requests (e # t) = requests t"

fun echoed :: "event list \<Rightarrow> string list" where
  "echoed [] = []"
| "echoed (Echo m # t) = m # echoed t"
| "echoed (e # t) = echoed t"

fun is_status :: "request \<Rightarrow> bool" where
  "is_status (Describe_services cl sn rg q) = (q = Q_status)"
| "is_status r = False"

fun is_wait :: "request \<Rightarrow> bool" where
  "is_wait (Wait_services_stable cl sn rg) = True"
| "is_wait r = False"

fun is_audit :: "request \<Rightarrow> bool" where
  "is_audit (Describe_services cl sn rg q) = (q \<noteq> Q_status)"
| "is_audit r = False"

definition lists_as_updated :: "string \<Rightarrow> event list \<Rightarrow> bool" where
  "lists_as_updated service t =
    (Echo (''  '' @ bullet @ '' '' @ service @ ''-service'') \<in> set t)"

text \<open>The requests of the script for one service, and all requests of a run.\<close>

definition cluster_request :: "config \<Rightarrow> request" where
  "cluster_request c = Describe_clusters (CLUSTER_NAME c) (AWS_REGION c)"

definition status_request :: "config \<Rightarrow> string \<Rightarrow> request" where
  "status_request c service =
    Describe_services (CLUSTER_NAME c) (service_name_of c service) (AWS_REGION c) Q_status"

definition update_request :: "config \<Rightarrow> string \<Rightarrow> request" where
  "update_request c service =
    Update_service (CLUSTER_NAME c) (service_name_of c service) (AWS_REGION c)"

definition wait_request :: "config \<Rightarrow> string \<Rightarrow> request" where
  "wait_request c service =
    Wait_services_stable (CLUSTER_NAME c) (service_name_of c service) (AWS_REGION c)"

definition audit_requests :: "config \<Rightarrow> string \<Rightarrow> request list" where
  "audit_requests c service =
    map (Describe_services (CLUSTER_NAME c) (service_name_of c service) (AWS_REGION c))
      [Q_runningCount, Q_desiredCount, Q_deployments]"

definition script_requests :: "config \<Rightarrow> request list" where
  "script_requests c =
    cluster_request c #
    concat (map (\<lambda>s. [status_request c s, update_request c s, wait_request c s] @
                      audit_requests c s) (SERVICES c))"

definition agree_on :: "config \<Rightarrow> world \<Rightarrow> world \<Rightarrow> string \<Rightarrow> bool" where
  "agree_on c w1 w2 s =
    (\<forall>r\<in>set ([status_request c s, update_request c s] @ audit_requests c s).
       aws w1 r = aws w2 r)"

text \<open>
  The outcome of each call for a service: the prerequisite check returns, the update
  (trigger) returns 0, the wait returns 0, both commands of the health loop return 0.
\<close>

definition prerequisites_met :: "config \<Rightarrow> world \<Rightarrow> bool" where
  "prerequisites_met c w = (snd (check_prerequisites c w) = None)"

definition trigger_succeeds :: "config \<Rightarrow> world \<Rightarrow> string \<Rightarrow> bool" where
  "trigger_succeeds c w service = (snd (update_service c w service) = 0)"

definition wait_succeeds :: "config \<Rightarrow> world \<Rightarrow> string \<Rightarrow> bool" where
  "wait_succeeds c w service = (snd (wait_for_service c w service) = 0)"

definition audit_succeeds :: "config \<Rightarrow> world \<Rightarrow> string \<Rightarrow> bool" where
  "audit_succeeds c w service =
    (snd (check_service_health c w service) = 0 \<and> snd (get_deployment_status c w service) = 0)"

text \<open>The events of one iteration of each loop, and the state before the health loop.\<close>

definition update_events :: "config \<Rightarrow> world \<Rightarrow> string \<Rightarrow> event list" where
  "update_events c w service =
    [Echo ''''] @ log_info dash_line @ log_info (''Updating '' @ service @ '' service'') @
    log_info dash_line @ fst (update_service c w service)"

definition wait_events :: "config \<Rightarrow> world \<Rightarrow> string \<Rightarrow> event list" where
  "wait_events c w service = [Echo ''''] @ fst (wait_for_service c w service)"

definition audit_events :: "config \<Rightarrow> world \<Rightarrow> string \<Rightarrow> event list" where
  "audit_events c w service =
    [Echo ''''] @ fst (check_service_health c w service) @ fst (get_deployment_status c w service)"

definition wait_part :: "config \<Rightarrow> world \<Rightarrow> event list" where
  "wait_part c w =
    (if WAIT_FOR_STABLE c = ''true''
     then wait_banner @ concat (map (wait_events c w) (SERVICES c)) else [])"

definition wait_failed :: "config \<Rightarrow> world \<Rightarrow> string list" where
  "wait_failed c w =
    (if WAIT_FOR_STABLE c = ''true''
     then filter (\<lambda>s. \<not> wait_succeeds c w s) (SERVICES c) else [])"

definition before_health :: "config \<Rightarrow> world \<Rightarrow> run_state" where
  "before_health c w =
    \<lparr>out = header c @ fst (check_prerequisites c w) @
           concat (map (update_events c w) (SERVICES c)) @ wait_part c w @ health_banner,
     failed_services = wait_failed c w,
     updated_services = SERVICES c\<rparr>"

subsection \<open>Example runs\<close>

text \<open>
  An invocation without arguments and variables, and a collaborator in which every
  service is active with two of two tasks running and every command succeeds;
  \<open>answering r a\<close> is this collaborator with the answer to the request \<open>r\<close> replaced.
\<close>

definition default_invocation :: invocation where
  "default_invocation =
    \<lparr>env_AWS_REGION = None, env_ENVIRONMENT_NAME = None, env_WAIT_FOR_STABLE = None,
     args = []\<rparr>"

definition steady_answers :: "request \<Rightarrow> nat \<times> string" where
  "steady_answers r =
    (case r of
       Describe_services cl sn rg Q_status \<Rightarrow> (0, ''ACTIVE'' @ [CHR 0x0A])
     | Describe_services cl sn rg Q_runningCount \<Rightarrow> (0, ''2'' @ [CHR 0x0A])
     | Describe_services cl sn rg Q_desiredCount \<Rightarrow> (0, ''2'' @ [CHR 0x0A])
     | _ \<Rightarrow> (0, []))"

definition steady_world :: world where
  "steady_world = \<lparr>command_v_aws = 0, aws = steady_answers\<rparr>"

definition answering :: "request \<Rightarrow> nat \<times> string \<Rightarrow> world" where
  "answering r a = \<lparr>command_v_aws = 0, aws = steady_answers(r := a)\<rparr>"

definition trial_service :: "string \<Rightarrow> query \<Rightarrow> request" where
  "trial_service service q =
    Describe_services ''ecs-trial-cluster'' (''ecs-trial-'' @ service @ ''-service'')
      ''eu-west-1'' q"

definition frontend_timeout_world :: world where
  "frontend_timeout_world =
    answering (Wait_services_stable ''ecs-trial-cluster'' ''ecs-trial-frontend-service''
                 ''eu-west-1'') (255, [])"

definition tasks_draining_world :: world where
  "tasks_draining_world = answering (trial_service ''tasks'' Q_status) (0, ''DRAINING'')"

definition no_cli_world :: world where
  "no_cli_world = \<lparr>command_v_aws = 1, aws = steady_answers\<rparr>"

definition no_cluster_world :: world where
  "no_cluster_world = answering (Describe_clusters ''ecs-trial-cluster'' ''eu-west-1'') (254, [])"

definition update_rejected_world :: world where
  "update_rejected_world =
    answering (Update_service ''ecs-trial-cluster'' ''ecs-trial-users-service'' ''eu-west-1'')
      (254, [])"

section \<open>Properties of the loops and of main\<close>

lemma requests_append [simp]: "requests (a @ b) = requests a @ requests b"
  by (induction a rule: requests.induct) simp_all

lemma out_emit [simp]: "out (emit t st) = out st @ t"
  and failed_emit [simp]: "failed_services (emit t st) = failed_services st"
  and updated_emit [simp]: "updated_services (emit t st) = updated_services st"
  by (simp_all add: emit_def)

lemma update_loop_out:
  "out (update_loop c w xs st) = out st @ concat (map (update_events c w) xs)"
  by (induction xs arbitrary: st) (simp_all add: Let_def update_events_def)

lemma update_loop_failed:
  "failed_services (update_loop c w xs st) =
     failed_services st @ filter (\<lambda>s. \<not> trigger_succeeds c w s) xs"
  by (induction xs arbitrary: st) (simp_all add: Let_def trigger_succeeds_def)

lemma update_loop_updated:
  "updated_services (update_loop c w xs st) =
     updated_services st @ filter (trigger_succeeds c w) xs"
  by (induction xs arbitrary: st) (simp_all add: Let_def trigger_succeeds_def)

lemma wait_loop_out:
  "out (wait_loop c w xs st) = out st @ concat (map (wait_events c w) xs)"
  by (induction xs arbitrary: st) (simp_all add: Let_def wait_events_def)

lemma wait_loop_failed:
  "failed_services (wait_loop c w xs st) =
     failed_services st @ filter (\<lambda>s. \<not> wait_succeeds c w s) xs"
  by (induction xs arbitrary: st) (simp_all add: Let_def wait_succeeds_def)

lemma wait_loop_updated:
  "updated_services (wait_loop c w xs st) = updated_services st"
  by (induction xs arbitrary: st) (simp_all add: Let_def)

lemma health_loop_failed:
  "failed_services (fst (health_loop c w xs st)) = failed_services st"
  by (induction xs arbitrary: st) (simp_all add: Let_def)

lemma health_loop_updated:
  "updated_services (fst (health_loop c w xs st)) = updated_services st"
  by (induction xs arbitrary: st) (simp_all add: Let_def)

lemma health_loop_all_ok:
  "\<forall>s\<in>set xs. audit_succeeds c w s \<Longrightarrow>
     snd (health_loop c w xs st) = None \<and>
     out (fst (health_loop c w xs st)) = out st @ concat (map (audit_events c w) xs)"
  by (induction xs arbitrary: st) (simp_all add: Let_def audit_succeeds_def audit_events_def)

lemma health_loop_exit_nonzero:
  "snd (health_loop c w xs st) = Some code \<Longrightarrow> code \<noteq> 0"
  by (induction xs arbitrary: st) (auto simp: Let_def split: if_splits)

lemma health_loop_exit_iff:
  "(snd (health_loop c w xs st) = None) = (\<forall>s\<in>set xs. audit_succeeds c w s)"
  by (induction xs arbitrary: st) (auto simp: Let_def audit_succeeds_def)

lemma check_prerequisites_code:
  "snd (check_prerequisites c w) = Some code \<Longrightarrow> code = 1"
  by (auto simp: check_prerequisites_def Let_def split: if_splits)

lemma update_loop_eq:
  "update_loop c w xs st =
    \<lparr>out = out st @ concat (map (update_events c w) xs),
     failed_services = failed_services st @ filter (\<lambda>s. \<not> trigger_succeeds c w s) xs,
     updated_services = updated_services st @ filter (trigger_succeeds c w) xs\<rparr>"
  by (rule run_state.equality)
     (simp_all add: update_loop_out update_loop_failed update_loop_updated)

lemma wait_loop_eq:
  "wait_loop c w xs st =
    \<lparr>out = out st @ concat (map (wait_events c w) xs),
     failed_services = failed_services st @ filter (\<lambda>s. \<not> wait_succeeds c w s) xs,
     updated_services = updated_services st\<rparr>"
  by (rule run_state.equality)
     (simp_all add: wait_loop_out wait_loop_failed wait_loop_updated)

lemma health_loop_ok_eq:
  assumes "\<forall>s\<in>set xs. audit_succeeds c w s"
  shows "health_loop c w xs st =
    (\<lparr>out = out st @ concat (map (audit_events c w) xs),
      failed_services = failed_services st,
      updated_services = updated_services st\<rparr>, None)"
proof (rule prod_eqI)
  show "fst (health_loop c w xs st) = fst (\<lparr>out = out st @ concat (map (audit_events c w) xs),
      failed_services = failed_services st,
      updated_services = updated_services st\<rparr>, None :: nat option)"
    using health_loop_all_ok [OF assms, of st]
    by (intro run_state.equality) (simp_all add: health_loop_failed health_loop_updated)
  show "snd (health_loop c w xs st) = snd (\<lparr>out = out st @ concat (map (audit_events c w) xs),
      failed_services = failed_services st,
      updated_services = updated_services st\<rparr>, None :: nat option)"
    using health_loop_all_ok [OF assms, of st] by simp
qed

lemma main_prerequisites_missing:
  assumes "\<not> prerequisites_met c w"
  shows "main c w =
    (\<lparr>out = header c @ fst (check_prerequisites c w),
      failed_services = [], updated_services = []\<rparr>, 1)"
proof -
  from assms obtain code where s: "snd (check_prerequisites c w) = Some code"
    by (auto simp: prerequisites_met_def)
  then have "code = 1" by (rule check_prerequisites_code)
  with s show ?thesis by (simp add: main_def emit_def)
qed

lemma main_trigger_failed:
  assumes "prerequisites_met c w" and "\<exists>s\<in>set (SERVICES c). \<not> trigger_succeeds c w s"
  shows "main c w =
    (\<lparr>out = header c @ fst (check_prerequisites c w) @
            concat (map (update_events c w) (SERVICES c)) @
            log_error (''Failed to update services: '' @
                       join_words (filter (\<lambda>s. \<not> trigger_succeeds c w s) (SERVICES c))),
      failed_services = filter (\<lambda>s. \<not> trigger_succeeds c w s) (SERVICES c),
      updated_services = filter (trigger_succeeds c w) (SERVICES c)\<rparr>, 1)"
proof -
  have ne: "filter (\<lambda>s. \<not> trigger_succeeds c w s) (SERVICES c) \<noteq> []"
    using assms(2) by (simp add: filter_empty_conv)
  have p: "snd (check_prerequisites c w) = None"
    using assms(1) by (simp add: prerequisites_met_def)
  show ?thesis
    using ne p by (simp add: main_def Let_def update_loop_eq emit_def)
qed

lemma emit_emit: "emit b (emit a st) = emit (a @ b) st"
  by (simp add: emit_def)

lemma main_triggered:
  assumes "prerequisites_met c w" and "\<forall>s\<in>set (SERVICES c). trigger_succeeds c w s"
  shows "main c w =
    (case health_loop c w (SERVICES c) (before_health c w) of
       (st5, Some code) \<Rightarrow> (st5, code)
     | (st5, None) \<Rightarrow>
        (if failed_services st5 = []
         then (emit (summary_banner @ success_report c (updated_services st5)) st5, 0)
         else (emit (summary_banner @ failure_report c (failed_services st5)) st5, 1)))"
proof -
  define S2 where "S2 = \<lparr>out = header c @ fst (check_prerequisites c w) @
                        concat (map (update_events c w) (SERVICES c)),
                  failed_services = [], updated_services = SERVICES c\<rparr>"
  have f: "filter (\<lambda>s. \<not> trigger_succeeds c w s) (SERVICES c) = []"
    using assms(2) by (simp add: filter_empty_conv)
  have u: "filter (trigger_succeeds c w) (SERVICES c) = SERVICES c"
    using assms(2) by (simp add: filter_id_conv)
  have p: "snd (check_prerequisites c w) = None"
    using assms(1) by (simp add: prerequisites_met_def)
  have st2: "update_loop c w (SERVICES c)
      (emit (fst (check_prerequisites c w))
         \<lparr>out = header c, failed_services = [], updated_services = []\<rparr>) = S2"
    by (simp add: update_loop_eq f u emit_def S2_def)
  have st4: "emit health_banner
      (if WAIT_FOR_STABLE c = ''true''
       then wait_loop c w (updated_services S2) (emit wait_banner S2)
       else S2) = before_health c w"
    by (simp add: before_health_def wait_part_def wait_failed_def wait_loop_eq emit_def S2_def)
  have nf: "\<not> 0 < length (failed_services S2)"
    by (simp add: S2_def)
  have ub: "updated_services (before_health c w) = SERVICES c"
    by (simp add: before_health_def)
  have "main c w =
    (case health_loop c w (SERVICES c) (before_health c w) of
       (st5, Some code) \<Rightarrow> (st5, code)
     | (st5, None) \<Rightarrow>
        (if length (failed_services (emit summary_banner st5)) = 0
         then (emit (success_report c (updated_services (emit summary_banner st5)))
                 (emit summary_banner st5), 0)
         else (emit (failure_report c (failed_services (emit summary_banner st5)))
                 (emit summary_banner st5), 1)))"
    by (simp only: main_def Let_def p option.case st2 nf if_False st4 ub)
  then show ?thesis
    by (simp add: emit_emit split: prod.splits option.splits)
qed

lemma main_all_audits_ok:
  assumes "prerequisites_met c w" and "\<forall>s\<in>set (SERVICES c). trigger_succeeds c w s"
    and "\<forall>s\<in>set (SERVICES c). audit_succeeds c w s"
  shows "main c w =
    (\<lparr>out = out (before_health c w) @ concat (map (audit_events c w) (SERVICES c)) @
            summary_banner @
            (if wait_failed c w = [] then success_report c (SERVICES c)
             else failure_report c (wait_failed c w)),
      failed_services = wait_failed c w,
      updated_services = SERVICES c\<rparr>,
     if wait_failed c w = [] then 0 else 1)"
  by (simp add: main_triggered [OF assms(1,2)] health_loop_ok_eq [OF assms(3)]
        before_health_def emit_def)

lemma requests_concat: "requests (concat ts) = concat (map requests ts)"
  by (induction ts) simp_all

lemma echoed_append [simp]: "echoed (a @ b) = echoed a @ echoed b"
  by (induction a rule: echoed.induct) simp_all

lemma echoed_concat: "echoed (concat ts) = concat (map echoed ts)"
  by (induction ts) simp_all

lemmas log_defs = log_info_def log_warning_def log_error_def log_step_def

lemma requests_header [simp]: "requests (header c) = []"
  by (simp add: header_def log_defs)

lemma requests_banners [simp]:
  "requests wait_banner = []" "requests health_banner = []" "requests summary_banner = []"
  by (simp_all add: wait_banner_def health_banner_def summary_banner_def log_defs)

lemma requests_bullets: "requests (map (\<lambda>s. Echo (f s)) xs) = []"
  by (induction xs) simp_all

lemma requests_reports [simp]:
  "requests (success_report c xs) = []" "requests (failure_report c ys) = []"
  by (simp_all add: success_report_def failure_report_def log_defs requests_bullets)

lemma requests_check_prerequisites:
  "requests (fst (check_prerequisites c w)) =
     (if command_v_aws w \<noteq> 0 then [] else [cluster_request c])"
  by (simp add: check_prerequisites_def Let_def log_defs cluster_request_def)

lemma requests_update_events:
  "requests (update_events c w s) =
     (if command_subst (snd (aws w (status_request c s))) = ''ACTIVE''
      then [status_request c s, update_request c s] else [status_request c s])"
  by (simp add: update_events_def update_service_def Let_def log_defs
        status_request_def update_request_def)

lemma requests_wait_events: "requests (wait_events c w s) = [wait_request c s]"
  by (simp add: wait_events_def wait_for_service_def Let_def log_defs wait_request_def)

lemma requests_audit_events: "requests (audit_events c w s) = audit_requests c s"
  by (simp add: audit_events_def check_service_health_def get_deployment_status_def Let_def
        log_defs audit_requests_def)

lemma requests_health_loop:
  "\<exists>rs. requests (out (fst (health_loop c w xs st))) = requests (out st) @ rs \<and>
        (\<forall>r\<in>set rs. is_audit r)"
proof (induction xs arbitrary: st)
  case Nil
  show ?case by simp
next
  case (Cons s xs)
  let ?st2 = "emit (fst (get_deployment_status c w s))
                (emit ([Echo ''''] @ fst (check_service_health c w s)) st)"
  from Cons.IH [of ?st2] obtain rs where
    rs: "requests (out (fst (health_loop c w xs ?st2))) = requests (out ?st2) @ rs"
        "\<forall>r\<in>set rs. is_audit r" by blast
  show ?case
  proof (cases "snd (check_service_health c w s) \<noteq> 0")
    case True
    then show ?thesis
      by (simp add: Let_def check_service_health_def log_defs)
  next
    case h: False
    show ?thesis
    proof (cases "snd (get_deployment_status c w s) \<noteq> 0")
      case True
      with h show ?thesis
        by (simp add: Let_def check_service_health_def get_deployment_status_def log_defs)
    next
      case False
      with h rs show ?thesis
        by (simp add: Let_def check_service_health_def get_deployment_status_def log_defs)
    qed
  qed
qed

lemma filter_requests_health_loop:
  assumes "\<And>r. is_audit r \<Longrightarrow> \<not> P r"
  shows "filter P (requests (out (fst (health_loop c w xs st)))) = filter P (requests (out st))"
proof -
  from requests_health_loop [of c w xs st] obtain rs where
    rs: "requests (out (fst (health_loop c w xs st))) = requests (out st) @ rs"
        "\<forall>r\<in>set rs. is_audit r" by blast
  have "filter P rs = []" using rs(2) assms by (auto simp: filter_empty_conv)
  with rs(1) show ?thesis by simp
qed

lemma audit_not_wait: "is_audit r \<Longrightarrow> \<not> is_wait r"
  by (cases r) simp_all

lemma audit_not_status: "is_audit r \<Longrightarrow> \<not> is_status r"
  by (cases r) simp_all

lemma filter_concat_nil: "(\<And>x. x \<in> set xs \<Longrightarrow> filter P (f x) = []) \<Longrightarrow>
  filter P (concat (map f xs)) = []"
  by (induction xs) simp_all

lemma filter_concat_single: "(\<And>x. x \<in> set xs \<Longrightarrow> filter P (f x) = [g x]) \<Longrightarrow>
  filter P (concat (map f xs)) = map g xs"
  by (induction xs) simp_all

lemma filter_concat_id: "(\<And>x. x \<in> set xs \<Longrightarrow> filter P (f x) = h x) \<Longrightarrow>
  filter P (concat (map f xs)) = concat (map h xs)"
  by (induction xs) simp_all

lemma wait_in_update_events: "filter is_wait (requests (concat (map (update_events c w) xs))) = []"
  by (simp add: requests_concat map_map comp_def filter_concat_nil requests_update_events
        status_request_def update_request_def)

lemma wait_in_prerequisites: "filter is_wait (requests (fst (check_prerequisites c w))) = []"
  by (simp add: requests_check_prerequisites cluster_request_def)

lemma wait_in_wait_events:
  "filter is_wait (requests (concat (map (wait_events c w) xs))) = map (wait_request c) xs"
  by (simp add: requests_concat map_map comp_def requests_wait_events wait_request_def
        filter_concat_single)

lemma before_health_waits:
  "filter is_wait (requests (out (before_health c w))) =
     (if WAIT_FOR_STABLE c = ''true'' then map (wait_request c) (SERVICES c) else [])"
  by (simp add: before_health_def wait_part_def wait_in_update_events wait_in_prerequisites
        wait_in_wait_events)

lemma main_triggered_trace:
  assumes "prerequisites_met c w" and "\<forall>s\<in>set (SERVICES c). trigger_succeeds c w s"
  shows "\<exists>t. trace (main c w) = out (fst (health_loop c w (SERVICES c) (before_health c w))) @ t
           \<and> requests t = []"
  by (simp add: main_triggered [OF assms] trace_def split: prod.splits option.splits)

lemma main_triggered_waits:
  assumes "prerequisites_met c w" and "\<forall>s\<in>set (SERVICES c). trigger_succeeds c w s"
  shows "filter is_wait (requests (trace (main c w))) =
     (if WAIT_FOR_STABLE c = ''true'' then map (wait_request c) (SERVICES c) else [])"
proof -
  from main_triggered_trace [OF assms] obtain t where
    t: "trace (main c w) = out (fst (health_loop c w (SERVICES c) (before_health c w))) @ t"
       "requests t = []" by blast
  show ?thesis
    by (simp only: t requests_append append_Nil2
          filter_requests_health_loop [where P = is_wait, OF audit_not_wait] before_health_waits)
qed

lemma waits_when_disabled:
  assumes "WAIT_FOR_STABLE c \<noteq> ''true''"
  shows "filter is_wait (requests (trace (main c w))) = []"
proof (cases "prerequisites_met c w")
  case False
  show ?thesis
    by (simp add: main_prerequisites_missing [OF False] trace_def wait_in_prerequisites)
next
  case p: True
  show ?thesis
  proof (cases "\<forall>s\<in>set (SERVICES c). trigger_succeeds c w s")
    case True
    show ?thesis using assms by (simp add: main_triggered_waits [OF p True])
  next
    case False
    then have "\<exists>s\<in>set (SERVICES c). \<not> trigger_succeeds c w s" by blast
    then show ?thesis
      by (simp add: main_trigger_failed [OF p] trace_def log_defs wait_in_prerequisites
            wait_in_update_events)
  qed
qed

lemma check_prerequisites_cong:
  "command_v_aws w1 = command_v_aws w2 \<Longrightarrow> aws w1 (cluster_request c) = aws w2 (cluster_request c)
   \<Longrightarrow> check_prerequisites c w1 = check_prerequisites c w2"
  by (simp add: check_prerequisites_def Let_def cluster_request_def)

lemma update_service_cong:
  "aws w1 (status_request c s) = aws w2 (status_request c s) \<Longrightarrow>
   aws w1 (update_request c s) = aws w2 (update_request c s) \<Longrightarrow>
   update_service c w1 s = update_service c w2 s"
  by (simp add: update_service_def Let_def status_request_def update_request_def)

lemma wait_for_service_cong:
  "aws w1 (wait_request c s) = aws w2 (wait_request c s) \<Longrightarrow>
   wait_for_service c w1 s = wait_for_service c w2 s"
  by (simp add: wait_for_service_def Let_def wait_request_def)

lemma check_service_health_cong:
  "\<forall>r\<in>set (audit_requests c s). aws w1 r = aws w2 r \<Longrightarrow>
   check_service_health c w1 s = check_service_health c w2 s"
  by (simp add: check_service_health_def Let_def audit_requests_def)

lemma get_deployment_status_cong:
  "\<forall>r\<in>set (audit_requests c s). aws w1 r = aws w2 r \<Longrightarrow>
   get_deployment_status c w1 s = get_deployment_status c w2 s"
  by (simp add: get_deployment_status_def Let_def audit_requests_def)

lemma update_loop_cong:
  "\<forall>s\<in>set xs. agree_on c w1 w2 s \<Longrightarrow> update_loop c w1 xs st = update_loop c w2 xs st"
proof (induction xs arbitrary: st)
  case Nil
  show ?case by simp
next
  case (Cons s xs)
  then have "update_service c w1 s = update_service c w2 s"
    by (intro update_service_cong) (simp_all add: agree_on_def)
  with Cons show ?case by (simp add: Let_def)
qed

lemma wait_loop_cong:
  "\<forall>s\<in>set xs. aws w1 (wait_request c s) = aws w2 (wait_request c s) \<Longrightarrow>
   wait_loop c w1 xs st = wait_loop c w2 xs st"
proof (induction xs arbitrary: st)
  case Nil
  show ?case by simp
next
  case (Cons s xs)
  then have "wait_for_service c w1 s = wait_for_service c w2 s"
    by (intro wait_for_service_cong) simp
  with Cons show ?case by (simp add: Let_def)
qed

lemma health_loop_cong:
  "\<forall>s\<in>set xs. agree_on c w1 w2 s \<Longrightarrow> health_loop c w1 xs st = health_loop c w2 xs st"
proof (induction xs arbitrary: st)
  case Nil
  show ?case by simp
next
  case (Cons s xs)
  then have a: "\<forall>r\<in>set (audit_requests c s). aws w1 r = aws w2 r"
    by (simp add: agree_on_def)
  have "check_service_health c w1 s = check_service_health c w2 s"
    and "get_deployment_status c w1 s = get_deployment_status c w2 s"
    using a by (rule check_service_health_cong, rule get_deployment_status_cong)
  with Cons show ?case by (simp add: Let_def)
qed

lemma echo_in_echoed: "Echo m \<in> set t \<Longrightarrow> m \<in> set (echoed t)"
  by (induction t rule: echoed.induct) auto

lemma echoed_header [simp]: "echoed (header c) = ['''', '''']"
  by (simp add: header_def log_defs)

lemma echoed_banners [simp]:
  "echoed wait_banner = ['''']" "echoed health_banner = ['''']" "echoed summary_banner = ['''']"
  by (simp_all add: wait_banner_def health_banner_def summary_banner_def log_defs)

lemma echoed_failure_report [simp]: "echoed (failure_report c ys) = []"
  by (simp add: failure_report_def log_defs)

lemma echoed_check_prerequisites [simp]: "echoed (fst (check_prerequisites c w)) = []"
  by (simp add: check_prerequisites_def Let_def log_defs)

lemma echoed_update_events: "echoed (update_events c w s) = ['''']"
  by (simp add: update_events_def update_service_def Let_def log_defs)

lemma echoed_wait_events: "echoed (wait_events c w s) = ['''']"
  by (simp add: wait_events_def wait_for_service_def Let_def log_defs)

lemma echoed_audit_events: "echoed (audit_events c w s) = ['''']"
  by (simp add: audit_events_def check_service_health_def get_deployment_status_def Let_def
        log_defs)

lemma echoed_concat_blank:
  "(\<And>x. echoed (f x) = ['''']) \<Longrightarrow> set (echoed (concat (map f xs))) \<subseteq> {[]}"
  by (induction xs) simp_all

lemma echoed_before_health: "set (echoed (out (before_health c w))) \<subseteq> {[]}"
  using echoed_concat_blank [of "update_events c w" "SERVICES c", OF echoed_update_events]
    echoed_concat_blank [of "wait_events c w" "SERVICES c", OF echoed_wait_events]
  by (simp add: before_health_def wait_part_def)

lemma audit_in_prerequisites: "filter is_audit (requests (fst (check_prerequisites c w))) = []"
  by (simp add: requests_check_prerequisites cluster_request_def)

lemma audit_in_update_events:
  "filter is_audit (requests (concat (map (update_events c w) xs))) = []"
  by (simp add: requests_concat map_map comp_def filter_concat_nil requests_update_events
        status_request_def update_request_def)

lemma audit_in_wait_events:
  "filter is_audit (requests (concat (map (wait_events c w) xs))) = []"
  by (simp add: requests_concat map_map comp_def filter_concat_nil requests_wait_events
        wait_request_def)

lemma audit_in_audit_events:
  "filter is_audit (requests (concat (map (audit_events c w) xs))) =
     concat (map (audit_requests c) xs)"
proof -
  have "filter is_audit (audit_requests c s) = audit_requests c s" for s
    by (simp add: audit_requests_def)
  then show ?thesis
    by (simp add: requests_concat map_map comp_def requests_audit_events filter_concat_id)
qed

lemma before_health_audits: "filter is_audit (requests (out (before_health c w))) = []"
  by (simp add: before_health_def wait_part_def audit_in_prerequisites audit_in_update_events
        audit_in_wait_events)

lemma prerequisites_met_iff:
  "prerequisites_met c w =
    (command_v_aws w = 0 \<and> fst (aws w (cluster_request c)) = 0)"
  by (simp add: prerequisites_met_def check_prerequisites_def Let_def cluster_request_def)

lemma status_in_prerequisites: "filter is_status (requests (fst (check_prerequisites c w))) = []"
  by (simp add: requests_check_prerequisites cluster_request_def)

lemma status_in_update_events:
  "filter is_status (requests (concat (map (update_events c w) xs))) = map (status_request c) xs"
  by (simp add: requests_concat map_map comp_def filter_concat_single requests_update_events
        status_request_def update_request_def)

lemma status_in_wait_events:
  "filter is_status (requests (concat (map (wait_events c w) xs))) = []"
  by (simp add: requests_concat map_map comp_def filter_concat_nil requests_wait_events
        wait_request_def)

lemma before_health_status:
  "filter is_status (requests (out (before_health c w))) = map (status_request c) (SERVICES c)"
  by (simp add: before_health_def wait_part_def status_in_prerequisites status_in_update_events
        status_in_wait_events)

lemma main_status_requests:
  assumes "prerequisites_met c w"
  shows "filter is_status (requests (trace (main c w))) = map (status_request c) (SERVICES c)"
proof (cases "\<forall>s\<in>set (SERVICES c). trigger_succeeds c w s")
  case True
  from main_triggered_trace [OF assms True] obtain t where
    t: "trace (main c w) = out (fst (health_loop c w (SERVICES c) (before_health c w))) @ t"
       "requests t = []" by blast
  show ?thesis
    by (simp only: t requests_append append_Nil2
          filter_requests_health_loop [where P = is_status, OF audit_not_status]
          before_health_status)
next
  case False
  then have f: "\<exists>s\<in>set (SERVICES c). \<not> trigger_succeeds c w s" by blast
  show ?thesis
    by (simp add: main_trigger_failed [OF assms f] trace_def log_defs status_in_prerequisites
          status_in_update_events)
qed

lemma main_triggered_failed:
  assumes "prerequisites_met c w" and "\<forall>s\<in>set (SERVICES c). trigger_succeeds c w s"
  shows "failed_services (fst (main c w)) = wait_failed c w"
proof -
  obtain st5 r where h: "health_loop c w (SERVICES c) (before_health c w) = (st5, r)"
    by (cases "health_loop c w (SERVICES c) (before_health c w)")
  have "failed_services (fst (health_loop c w (SERVICES c) (before_health c w))) = wait_failed c w"
    by (simp add: health_loop_failed before_health_def)
  then have "failed_services st5 = wait_failed c w"
    by (simp add: h)
  then show ?thesis
    by (cases r) (simp_all add: main_triggered [OF assms] h)
qed

lemma echoed_health_loop:
  "set (echoed (out (fst (health_loop c w xs st)))) \<subseteq> set (echoed (out st)) \<union> {[]}"
proof (induction xs arbitrary: st)
  case Nil
  show ?case by auto
next
  case (Cons s xs)
  let ?st1 = "emit ([Echo ''''] @ fst (check_service_health c w s)) st"
  let ?st2 = "emit (fst (get_deployment_status c w s)) ?st1"
  have e1: "echoed (out ?st1) = echoed (out st) @ ['''']"
    by (simp add: check_service_health_def Let_def log_defs)
  have e2: "echoed (out ?st2) = echoed (out st) @ ['''']"
    by (simp add: check_service_health_def get_deployment_status_def Let_def log_defs)
  from Cons.IH [of ?st2] e2
  have ih: "set (echoed (out (fst (health_loop c w xs ?st2)))) \<subseteq> set (echoed (out st)) \<union> {[]}"
    by auto
  show ?case
  proof (cases "snd (check_service_health c w s) \<noteq> 0")
    case True
    with e1 show ?thesis by (simp add: Let_def)
  next
    case h: False
    show ?thesis
    proof (cases "snd (get_deployment_status c w s) \<noteq> 0")
      case True
      with h e2 show ?thesis by (simp add: Let_def)
    next
      case False
      with h ih show ?thesis by (simp add: Let_def)
    qed
  qed
qed

lemma main_wait_failed_echoed:
  assumes "prerequisites_met c w" and "\<forall>s\<in>set (SERVICES c). trigger_succeeds c w s"
    and "wait_failed c w \<noteq> []"
  shows "set (echoed (trace (main c w))) \<subseteq> {[]}"
proof -
  obtain st5 r where h: "health_loop c w (SERVICES c) (before_health c w) = (st5, r)"
    by (cases "health_loop c w (SERVICES c) (before_health c w)")
  have "failed_services (fst (health_loop c w (SERVICES c) (before_health c w))) = wait_failed c w"
    by (simp add: health_loop_failed before_health_def)
  then have f: "failed_services st5 \<noteq> []"
    using assms(3) by (simp add: h)
  have e: "set (echoed (out st5)) \<subseteq> {[]}"
    using echoed_health_loop [of c w "SERVICES c" "before_health c w"]
      echoed_before_health [of c w]
    by (auto simp: h)
  show ?thesis
    using f e by (cases r) (simp_all add: main_triggered [OF assms(1,2)] h trace_def)
qed

lemma configure_services_nonempty: "SERVICES (configure iv) \<noteq> []"
  by (simp add: configure_def Let_def)

lemma configure_services_cases:
  "SERVICES (configure iv) = [''auth'', ''users'', ''tasks'', ''frontend''] \<or>
   SERVICES (configure iv) = [positional1 (args iv)]"
  by (simp add: configure_def Let_def)

lemma exit_code_trigger_failed:
  assumes "\<exists>s\<in>set (SERVICES c). \<not> trigger_succeeds c w s"
  shows "exit_code (main c w) = 1"
proof (cases "prerequisites_met c w")
  case True
  show ?thesis
    by (simp add: main_trigger_failed [OF True assms] exit_code_def)
next
  case False
  show ?thesis
    by (simp add: main_prerequisites_missing [OF False] exit_code_def)
qed

lemma main_wait_requests:
  "filter is_wait (requests (trace (main c w))) =
    (if prerequisites_met c w \<and> (\<forall>s\<in>set (SERVICES c). trigger_succeeds c w s) \<and>
        WAIT_FOR_STABLE c = ''true''
     then map (wait_request c) (SERVICES c) else [])"
proof (cases "prerequisites_met c w")
  case False
  then show ?thesis
    by (simp add: main_prerequisites_missing [OF False] trace_def wait_in_prerequisites)
next
  case p: True
  show ?thesis
  proof (cases "\<forall>s\<in>set (SERVICES c). trigger_succeeds c w s")
    case True
    with p show ?thesis by (simp add: main_triggered_waits [OF p True])
  next
    case False
    then have f: "\<exists>s\<in>set (SERVICES c). \<not> trigger_succeeds c w s" by blast
    have "filter is_wait (requests (trace (main c w))) = []"
      by (simp add: main_trigger_failed [OF p f] trace_def log_defs wait_in_prerequisites
            wait_in_update_events)
    with False show ?thesis by auto
  qed
qed

lemma main_without_wait_cong:
  assumes "WAIT_FOR_STABLE c \<noteq> ''true''" and "command_v_aws w1 = command_v_aws w2"
    and "\<forall>r\<in>set (filter (\<lambda>r. \<not> is_wait r) (script_requests c)). aws w1 r = aws w2 r"
  shows "main c w1 = main c w2"
proof -
  have h: "aws w1 r = aws w2 r" if "r \<in> set (script_requests c)" and "\<not> is_wait r" for r
    using assms(3) that by simp
  have ag: "\<forall>s\<in>set (SERVICES c). agree_on c w1 w2 s"
  proof
    fix s
    assume s: "s \<in> set (SERVICES c)"
    have "r \<in> set (script_requests c) \<and> \<not> is_wait r"
      if "r \<in> set ([status_request c s, update_request c s] @ audit_requests c s)" for r
      using that s
      by (auto simp: script_requests_def status_request_def update_request_def
            audit_requests_def)
    then show "agree_on c w1 w2 s"
      using h by (auto simp: agree_on_def)
  qed
  have "cluster_request c \<in> set (script_requests c)" and "\<not> is_wait (cluster_request c)"
    by (simp_all add: script_requests_def cluster_request_def)
  then have "aws w1 (cluster_request c) = aws w2 (cluster_request c)"
    by (rule h)
  with assms(2) have pre: "check_prerequisites c w1 = check_prerequisites c w2"
    by (rule check_prerequisites_cong)
  have upd: "update_loop c w1 (SERVICES c) st = update_loop c w2 (SERVICES c) st" for st
    using ag by (rule update_loop_cong)
  have hl: "health_loop c w1 ys st = health_loop c w2 ys st"
    if "set ys \<subseteq> set (SERVICES c)" for ys st
    using ag that by (intro health_loop_cong) blast
  show ?thesis
  proof (cases "snd (check_prerequisites c w2)")
    case (Some code)
    then show ?thesis by (simp add: main_def pre)
  next
    case None
    then show ?thesis
      using assms(1) by (simp add: main_def Let_def pre upd hl update_loop_updated
            cong: if_cong)
  qed
qed

lemma healthy_run_succeeds:
  assumes "prerequisites_met c w"
    and "\<forall>s\<in>set (SERVICES c). trigger_succeeds c w s"
    and "WAIT_FOR_STABLE c \<noteq> ''true'' \<or> (\<forall>s\<in>set (SERVICES c). wait_succeeds c w s)"
    and "\<forall>s\<in>set (SERVICES c). audit_succeeds c w s"
  shows "exit_code (main c w) = 0 \<and>
         updated_services (fst (main c w)) = SERVICES c \<and>
         suffix (summary_banner @ success_report c (SERVICES c)) (trace (main c w))"
proof -
  have wf: "wait_failed c w = []"
    using assms(3) by (auto simp: wait_failed_def filter_empty_conv)
  note m = main_all_audits_ok [OF assms(1,2,4)]
  have tr: "trace (main c w) =
      (out (before_health c w) @ concat (map (audit_events c w) (SERVICES c))) @
      (summary_banner @ success_report c (SERVICES c))"
    by (simp add: m wf trace_def)
  have "suffix (summary_banner @ success_report c (SERVICES c)) (trace (main c w))"
    unfolding tr by (rule suffix_appendI) simp
  then show ?thesis
    by (simp add: m wf exit_code_def)
qed

section \<open>The claims\<close>

text \<open>
  C1: for every non-empty service list, if every trigger call succeeds and waiting is
  disabled or every wait call succeeds, the exit code is 0 and the reported succeeded
  services are the full input set. The script breaks this: the health check of line 237
  is a plain command under \<^verbatim>\<open>set -e\<close>, so a service below its desired capacity ends
  the script with status 1 before the summary. Here the default fleet is run with waiting
  disabled, every update succeeds, and the frontend service reports 1 of 2 tasks.
\<close>

theorem degraded_health_fails_triggered_run:
  "prerequisites_met (configure (default_invocation\<lparr>env_WAIT_FOR_STABLE := Some ''false''\<rparr>))
     (answering (trial_service ''frontend'' Q_runningCount) (0, ''1'')) \<and>
   list_all (trigger_succeeds (configure (default_invocation\<lparr>env_WAIT_FOR_STABLE := Some ''false''\<rparr>))
     (answering (trial_service ''frontend'' Q_runningCount) (0, ''1'')))
     [''auth'', ''users'', ''tasks'', ''frontend''] \<and>
   WAIT_FOR_STABLE (configure (default_invocation\<lparr>env_WAIT_FOR_STABLE := Some ''false''\<rparr>)) \<noteq> ''true'' \<and>
   exit_code (script (default_invocation\<lparr>env_WAIT_FOR_STABLE := Some ''false''\<rparr>)
     (answering (trial_service ''frontend'' Q_runningCount) (0, ''1''))) = 1 \<and>
   \<not> lists_as_updated ''auth'' (trace (script (default_invocation\<lparr>env_WAIT_FOR_STABLE := Some ''false''\<rparr>)
     (answering (trial_service ''frontend'' Q_runningCount) (0, ''1''))))"
  by code_simp

text \<open>
  C2: for every service list with at least one service whose trigger call fails, the run
  exits with code 1 and no wait request is sent for any service.
\<close>

theorem trigger_failure_is_fatal:
  assumes "\<exists>s\<in>set (SERVICES c). \<not> trigger_succeeds c w s"
  shows "exit_code (main c w) = 1 \<and> filter is_wait (requests (trace (main c w))) = []"
proof (cases "prerequisites_met c w")
  case True
  show ?thesis
    by (simp add: main_trigger_failed [OF True assms] exit_code_def trace_def log_defs
          wait_in_prerequisites wait_in_update_events)
next
  case False
  show ?thesis
    by (simp add: main_prerequisites_missing [OF False] exit_code_def trace_def
          wait_in_prerequisites)
qed

theorem trigger_failure_is_fatal_witness:
  "list_ex (\<lambda>s. \<not> trigger_succeeds (configure default_invocation) tasks_draining_world s)
     (SERVICES (configure default_invocation)) \<and>
   exit_code (main (configure default_invocation) tasks_draining_world) = 1 \<and>
   filter is_wait (requests (trace (main (configure default_invocation) tasks_draining_world))) = []"
proof -
  have h: "\<exists>s\<in>set (SERVICES (configure default_invocation)).
             \<not> trigger_succeeds (configure default_invocation) tasks_draining_world s"
    by code_simp
  from trigger_failure_is_fatal [OF h] h show ?thesis
    by (simp add: list_ex_iff)
qed

text \<open>
  C3: when every trigger call succeeds and waiting is disabled or every wait call
  succeeds, the exit code is 0 whatever the health audit answers; two runs that differ
  only in these answers have the same exit code. The script breaks this, by the same
  defect as in C1: for the single service auth, changing only the answer to the running
  count query (a lower count, or a failed call) turns exit code 0 into 1, and a failed
  deployment status query ends the script with the status of that command.
\<close>

theorem health_answer_decides_exit_code:
  "exit_code (script (default_invocation\<lparr>args := [''auth'']\<rparr>) steady_world) = 0 \<and>
   exit_code (script (default_invocation\<lparr>args := [''auth'']\<rparr>)
     (answering (trial_service ''auth'' Q_runningCount) (0, ''1''))) = 1 \<and>
   exit_code (script (default_invocation\<lparr>args := [''auth'']\<rparr>)
     (answering (trial_service ''auth'' Q_runningCount) (255, []))) = 1 \<and>
   exit_code (script (default_invocation\<lparr>args := [''auth'']\<rparr>)
     (answering (trial_service ''auth'' Q_deployments) (255, []))) = 255"
  by code_simp

text \<open>
  C4, as stated: a failed wait adds the service to the failed set, the remaining services
  are still waited for, the run exits 1, and the final report lists the services that
  succeeded beside the failed ones (with auth stable and frontend timing out: succeeded
  auth, failed frontend). The last part fails. The service list of the script is the
  default fleet or a single argument (lines 23-27), so the run is the default fleet with
  the wait for frontend timing out: its report after the summary banner is the two error
  lines, which name frontend only, and no line of the run lists auth as updated.
\<close>

theorem succeeded_service_missing_from_report:
  "wait_succeeds (configure default_invocation) frontend_timeout_world ''auth'' \<and>
   \<not> wait_succeeds (configure default_invocation) frontend_timeout_world ''frontend'' \<and>
   exit_code (script default_invocation frontend_timeout_world) = 1 \<and>
   \<not> lists_as_updated ''auth'' (trace (script default_invocation frontend_timeout_world)) \<and>
   suffix (summary_banner @
           [Log ERROR ''The following services failed: frontend'',
            Log ERROR ''Check logs with: aws logs tail /ecs/ecs-trial --follow''])
     (trace (script default_invocation frontend_timeout_world))"
  by code_simp

text \<open>
  C4, amended: with waiting enabled, in a run that passes the prerequisite check and in
  which every trigger call returns 0, every service is waited for, in list order, also
  after a failed wait, and the failed set is exactly the services whose wait failed; when
  some wait failed, no service is listed as updated; when some wait failed and every
  audit call returns 0, the run exits 1 and its final report names exactly the services
  whose wait failed.
\<close>

theorem wait_failure_fails_run_after_all_waits:
  assumes "prerequisites_met c w"
    and "\<forall>s\<in>set (SERVICES c). trigger_succeeds c w s"
    and "WAIT_FOR_STABLE c = ''true''"
  shows "filter is_wait (requests (trace (main c w))) = map (wait_request c) (SERVICES c) \<and>
         failed_services (fst (main c w)) =
           filter (\<lambda>s. \<not> wait_succeeds c w s) (SERVICES c) \<and>
         ((\<exists>s\<in>set (SERVICES c). \<not> wait_succeeds c w s) \<longrightarrow>
            (\<forall>service. \<not> lists_as_updated service (trace (main c w)))) \<and>
         ((\<exists>s\<in>set (SERVICES c). \<not> wait_succeeds c w s) \<and>
          (\<forall>s\<in>set (SERVICES c). audit_succeeds c w s) \<longrightarrow>
            exit_code (main c w) = 1 \<and>
            suffix (summary_banner @
                    failure_report c (filter (\<lambda>s. \<not> wait_succeeds c w s) (SERVICES c)))
              (trace (main c w)))"
proof -
  let ?failed = "filter (\<lambda>s. \<not> wait_succeeds c w s) (SERVICES c)"
  have wf: "wait_failed c w = ?failed"
    using assms(3) by (simp add: wait_failed_def)
  have 1: "filter is_wait (requests (trace (main c w))) = map (wait_request c) (SERVICES c)"
    using assms(3) by (simp add: main_triggered_waits [OF assms(1,2)])
  have 2: "failed_services (fst (main c w)) = ?failed"
    by (simp add: main_triggered_failed [OF assms(1,2)] wf)
  have 3: "\<not> lists_as_updated service (trace (main c w))"
    if "\<exists>s\<in>set (SERVICES c). \<not> wait_succeeds c w s" for service
  proof -
    from that have "wait_failed c w \<noteq> []"
      by (simp add: wf filter_empty_conv)
    from main_wait_failed_echoed [OF assms(1,2) this]
    show ?thesis
      using echo_in_echoed [of "''  '' @ bullet @ '' '' @ service @ ''-service''"
          "trace (main c w)"]
      by (auto simp: lists_as_updated_def)
  qed
  have 4: "exit_code (main c w) = 1 \<and>
           suffix (summary_banner @ failure_report c ?failed) (trace (main c w))"
    if f: "\<exists>s\<in>set (SERVICES c). \<not> wait_succeeds c w s"
      and a: "\<forall>s\<in>set (SERVICES c). audit_succeeds c w s"
  proof -
    have ne: "?failed \<noteq> []"
      using f by (simp add: filter_empty_conv)
    note m = main_all_audits_ok [OF assms(1,2) a]
    have tr: "trace (main c w) =
        (out (before_health c w) @ concat (map (audit_events c w) (SERVICES c))) @
        (summary_banner @ failure_report c ?failed)"
      using ne by (simp add: m wf trace_def)
    have "suffix (summary_banner @ failure_report c ?failed) (trace (main c w))"
      unfolding tr by (rule suffix_appendI) simp
    moreover have "exit_code (main c w) = 1"
      using ne by (simp add: m wf exit_code_def)
    ultimately show ?thesis by simp
  qed
  from 1 2 3 4 show ?thesis by blast
qed

theorem wait_failure_fails_run_after_all_waits_witness:
  "prerequisites_met (configure default_invocation) frontend_timeout_world \<and>
   list_all (trigger_succeeds (configure default_invocation) frontend_timeout_world)
     (SERVICES (configure default_invocation)) \<and>
   WAIT_FOR_STABLE (configure default_invocation) = ''true'' \<and>
   list_ex (\<lambda>s. \<not> wait_succeeds (configure default_invocation) frontend_timeout_world s)
     (SERVICES (configure default_invocation)) \<and>
   list_all (audit_succeeds (configure default_invocation) frontend_timeout_world)
     (SERVICES (configure default_invocation)) \<and>
   filter is_wait (requests (trace (main (configure default_invocation) frontend_timeout_world))) =
     map (wait_request (configure default_invocation))
       (SERVICES (configure default_invocation)) \<and>
   failed_services (fst (main (configure default_invocation) frontend_timeout_world)) =
     [''frontend''] \<and>
   \<not> lists_as_updated ''auth''
     (trace (main (configure default_invocation) frontend_timeout_world)) \<and>
   exit_code (main (configure default_invocation) frontend_timeout_world) = 1"
proof -
  let ?c = "configure default_invocation"
  have p: "prerequisites_met ?c frontend_timeout_world"
    by code_simp
  have t: "\<forall>s\<in>set (SERVICES ?c). trigger_succeeds ?c frontend_timeout_world s"
    by code_simp
  have e: "WAIT_FOR_STABLE ?c = ''true''"
    by code_simp
  have f: "\<exists>s\<in>set (SERVICES ?c). \<not> wait_succeeds ?c frontend_timeout_world s"
    by code_simp
  have a: "\<forall>s\<in>set (SERVICES ?c). audit_succeeds ?c frontend_timeout_world s"
    by code_simp
  have ws: "filter (\<lambda>s. \<not> wait_succeeds ?c frontend_timeout_world s) (SERVICES ?c) =
      [''frontend'']"
    by code_simp
  note r = wait_failure_fails_run_after_all_waits [OF p t e]
  from r have c1: "filter is_wait (requests (trace (main ?c frontend_timeout_world))) =
      map (wait_request ?c) (SERVICES ?c)"
    by blast
  from r have "failed_services (fst (main ?c frontend_timeout_world)) =
      filter (\<lambda>s. \<not> wait_succeeds ?c frontend_timeout_world s) (SERVICES ?c)"
    by blast
  then have c2: "failed_services (fst (main ?c frontend_timeout_world)) = [''frontend'']"
    by (simp only: ws)
  from r f have c3: "\<not> lists_as_updated ''auth'' (trace (main ?c frontend_timeout_world))"
    by blast
  from r f a have c4: "exit_code (main ?c frontend_timeout_world) = 1"
    by blast
  have la: "list_all (trigger_succeeds ?c frontend_timeout_world) (SERVICES ?c)"
    using t by (simp only: list_all_iff)
  have lf: "list_ex (\<lambda>s. \<not> wait_succeeds ?c frontend_timeout_world s) (SERVICES ?c)"
    using f by (simp only: list_ex_iff)
  have lh: "list_all (audit_succeeds ?c frontend_timeout_world) (SERVICES ?c)"
    using a by (simp only: list_all_iff)
  show ?thesis
    by (intro conjI p la e lf lh c1 c2 c3 c4)
qed

text \<open>
  C5, as stated: in every run that passes the prerequisite check, the audit phase is
  executed for every service that was triggered, also when the trigger of another service
  failed. It fails: with the tasks service draining, the update of auth is sent, the run
  stops at line 211, and no audit request is sent at all.
\<close>

theorem triggered_service_not_audited:
  "prerequisites_met (configure default_invocation) tasks_draining_world \<and>
   trigger_succeeds (configure default_invocation) tasks_draining_world ''auth'' \<and>
   \<not> trigger_succeeds (configure default_invocation) tasks_draining_world ''tasks'' \<and>
   update_request (configure default_invocation) ''auth'' \<in>
     set (requests (trace (main (configure default_invocation) tasks_draining_world))) \<and>
   filter is_audit (requests (trace (main (configure default_invocation) tasks_draining_world))) = []"
  by code_simp

text \<open>
  C5, amended: in a run that passes the prerequisite check, when every trigger call
  succeeds and every audit call succeeds, the audit (running count, desired count,
  deployment status) is executed for every service, in list order; when the trigger call
  of some service fails, no audit is executed for any service.
\<close>

theorem audit_phase_follows_complete_trigger:
  assumes "prerequisites_met c w"
  shows "((\<forall>s\<in>set (SERVICES c). trigger_succeeds c w s) \<and>
          (\<forall>s\<in>set (SERVICES c). audit_succeeds c w s) \<longrightarrow>
            filter is_audit (requests (trace (main c w))) =
              concat (map (audit_requests c) (SERVICES c))) \<and>
         ((\<exists>s\<in>set (SERVICES c). \<not> trigger_succeeds c w s) \<longrightarrow>
            filter is_audit (requests (trace (main c w))) = [])"
proof (intro conjI impI)
  assume a: "(\<forall>s\<in>set (SERVICES c). trigger_succeeds c w s) \<and>
             (\<forall>s\<in>set (SERVICES c). audit_succeeds c w s)"
  then have t: "\<forall>s\<in>set (SERVICES c). trigger_succeeds c w s"
    and h: "\<forall>s\<in>set (SERVICES c). audit_succeeds c w s" by blast+
  show "filter is_audit (requests (trace (main c w))) =
          concat (map (audit_requests c) (SERVICES c))"
    by (simp add: main_all_audits_ok [OF assms t h] trace_def before_health_audits
          audit_in_audit_events)
next
  assume f: "\<exists>s\<in>set (SERVICES c). \<not> trigger_succeeds c w s"
  show "filter is_audit (requests (trace (main c w))) = []"
    by (simp add: main_trigger_failed [OF assms f] trace_def log_defs audit_in_prerequisites
          audit_in_update_events)
qed

theorem audit_phase_follows_complete_trigger_witness:
  "prerequisites_met (configure default_invocation) steady_world \<and>
   list_all (trigger_succeeds (configure default_invocation) steady_world)
     (SERVICES (configure default_invocation)) \<and>
   list_all (audit_succeeds (configure default_invocation) steady_world)
     (SERVICES (configure default_invocation)) \<and>
   filter is_audit (requests (trace (main (configure default_invocation) steady_world))) =
     concat (map (audit_requests (configure default_invocation))
               (SERVICES (configure default_invocation))) \<and>
   prerequisites_met (configure default_invocation) tasks_draining_world \<and>
   list_ex (\<lambda>s. \<not> trigger_succeeds (configure default_invocation) tasks_draining_world s)
     (SERVICES (configure default_invocation)) \<and>
   filter is_audit (requests (trace (main (configure default_invocation) tasks_draining_world))) = []"
proof -
  have p: "prerequisites_met (configure default_invocation) steady_world"
    by code_simp
  have t: "\<forall>s\<in>set (SERVICES (configure default_invocation)).
             trigger_succeeds (configure default_invocation) steady_world s"
    by code_simp
  have a: "\<forall>s\<in>set (SERVICES (configure default_invocation)).
             audit_succeeds (configure default_invocation) steady_world s"
    by code_simp
  have q: "prerequisites_met (configure default_invocation) tasks_draining_world"
    by code_simp
  have f: "\<exists>s\<in>set (SERVICES (configure default_invocation)).
             \<not> trigger_succeeds (configure default_invocation) tasks_draining_world s"
    by code_simp
  from audit_phase_follows_complete_trigger [OF p] t a
  have c1: "filter is_audit (requests (trace (main (configure default_invocation) steady_world))) =
      concat (map (audit_requests (configure default_invocation))
                (SERVICES (configure default_invocation)))"
    by blast
  from audit_phase_follows_complete_trigger [OF q] f
  have c2: "filter is_audit
      (requests (trace (main (configure default_invocation) tasks_draining_world))) = []"
    by blast
  have lt: "list_all (trigger_succeeds (configure default_invocation) steady_world)
      (SERVICES (configure default_invocation))"
    using t by (simp only: list_all_iff)
  have la: "list_all (audit_succeeds (configure default_invocation) steady_world)
      (SERVICES (configure default_invocation))"
    using a by (simp only: list_all_iff)
  have lf: "list_ex (\<lambda>s. \<not> trigger_succeeds (configure default_invocation) tasks_draining_world s)
      (SERVICES (configure default_invocation))"
    using f by (simp only: list_ex_iff)
  show ?thesis
    by (intro conjI p lt la c1 q lf c2)
qed

text \<open>
  C6: the trigger operation first resolves the status of the service and sends the forced
  redeployment only if the status is active; for any other status the trigger fails
  without sending the redeployment, and the failure is reported as a service that is not
  found or not active (a rejected redeployment is reported as a failed update).
\<close>

theorem update_service_resolves_status_first:
  "requests (fst (update_service c w service)) =
     (if command_subst (snd (aws w (status_request c service))) = ''ACTIVE''
      then [status_request c service, update_request c service]
      else [status_request c service]) \<and>
   (command_subst (snd (aws w (status_request c service))) \<noteq> ''ACTIVE'' \<longrightarrow>
      snd (update_service c w service) = 1 \<and>
      last (fst (update_service c w service)) =
        Log ERROR (''Service '' @ squote @ service_name_of c service @ squote @
                   '' not found or not active'')) \<and>
   (command_subst (snd (aws w (status_request c service))) = ''ACTIVE'' \<and>
    fst (aws w (update_request c service)) \<noteq> 0 \<longrightarrow>
      snd (update_service c w service) = 1 \<and>
      last (fst (update_service c w service)) =
        Log ERROR (''Failed to update '' @ service @ '' service'')) \<and>
   (command_subst (snd (aws w (status_request c service))) = ''ACTIVE'' \<and>
    fst (aws w (update_request c service)) = 0 \<longrightarrow>
      snd (update_service c w service) = 0)"
  by (simp add: update_service_def Let_def log_defs status_request_def update_request_def)

theorem update_service_resolves_status_first_witness:
  "command_subst (snd (aws tasks_draining_world
      (status_request (configure default_invocation) ''tasks''))) \<noteq> ''ACTIVE'' \<and>
   requests (fst (update_service (configure default_invocation) tasks_draining_world ''tasks'')) =
     [status_request (configure default_invocation) ''tasks''] \<and>
   snd (update_service (configure default_invocation) tasks_draining_world ''tasks'') = 1 \<and>
   command_subst (snd (aws update_rejected_world
      (status_request (configure default_invocation) ''users''))) = ''ACTIVE'' \<and>
   fst (aws update_rejected_world (update_request (configure default_invocation) ''users'')) \<noteq> 0 \<and>
   snd (update_service (configure default_invocation) update_rejected_world ''users'') = 1 \<and>
   command_subst (snd (aws steady_world
      (status_request (configure default_invocation) ''auth''))) = ''ACTIVE'' \<and>
   fst (aws steady_world (update_request (configure default_invocation) ''auth'')) = 0 \<and>
   snd (update_service (configure default_invocation) steady_world ''auth'') = 0"
proof -
  have h1: "command_subst (snd (aws tasks_draining_world
      (status_request (configure default_invocation) ''tasks''))) \<noteq> ''ACTIVE''"
    by code_simp
  have h2: "command_subst (snd (aws update_rejected_world
      (status_request (configure default_invocation) ''users''))) = ''ACTIVE''"
    by code_simp
  have h3: "fst (aws update_rejected_world
      (update_request (configure default_invocation) ''users'')) \<noteq> 0"
    by code_simp
  have h4: "command_subst (snd (aws steady_world
      (status_request (configure default_invocation) ''auth''))) = ''ACTIVE''"
    by code_simp
  have h5: "fst (aws steady_world (update_request (configure default_invocation) ''auth'')) = 0"
    by code_simp
  note r1 = update_service_resolves_status_first
    [of "configure default_invocation" tasks_draining_world "''tasks''"]
  note r2 = update_service_resolves_status_first
    [of "configure default_invocation" update_rejected_world "''users''"]
  note r3 = update_service_resolves_status_first
    [of "configure default_invocation" steady_world "''auth''"]
  from r1 h1 have c1: "requests (fst (update_service (configure default_invocation)
      tasks_draining_world ''tasks'')) = [status_request (configure default_invocation) ''tasks'']"
    by simp
  from r1 h1 have c2: "snd (update_service (configure default_invocation)
      tasks_draining_world ''tasks'') = 1"
    by blast
  from r2 h2 h3 have c3: "snd (update_service (configure default_invocation)
      update_rejected_world ''users'') = 1"
    by blast
  from r3 h4 h5 have c4: "snd (update_service (configure default_invocation)
      steady_world ''auth'') = 0"
    by blast
  show ?thesis
    by (intro conjI h1 c1 c2 h2 h3 c3 h4 h5 c4)
qed

text \<open>
  C7: if a prerequisite is missing (the command line tool is unavailable or the cluster
  lookup fails), the run ends with exit code 1 before any trigger call: its output is
  the header and the prerequisite messages, the only request it can have sent is the
  cluster lookup, and no service was recorded as updated or failed.
\<close>

theorem missing_prerequisite_aborts_run:
  assumes "command_v_aws w \<noteq> 0 \<or> fst (aws w (cluster_request c)) \<noteq> 0"
  shows "exit_code (main c w) = 1 \<and>
         trace (main c w) = header c @ fst (check_prerequisites c w) \<and>
         set (requests (trace (main c w))) \<subseteq> {cluster_request c} \<and>
         updated_services (fst (main c w)) = [] \<and>
         failed_services (fst (main c w)) = []"
proof -
  from assms have n: "\<not> prerequisites_met c w"
    by (simp add: prerequisites_met_iff)
  show ?thesis
    by (simp add: main_prerequisites_missing [OF n] exit_code_def trace_def
          requests_check_prerequisites)
qed

theorem missing_prerequisite_aborts_run_witness:
  "command_v_aws no_cli_world \<noteq> 0 \<and>
   exit_code (main (configure default_invocation) no_cli_world) = 1 \<and>
   updated_services (fst (main (configure default_invocation) no_cli_world)) = [] \<and>
   fst (aws no_cluster_world (cluster_request (configure default_invocation))) \<noteq> 0 \<and>
   exit_code (main (configure default_invocation) no_cluster_world) = 1 \<and>
   updated_services (fst (main (configure default_invocation) no_cluster_world)) = []"
proof -
  have h1: "command_v_aws no_cli_world \<noteq> 0"
    by code_simp
  have h2: "fst (aws no_cluster_world (cluster_request (configure default_invocation))) \<noteq> 0"
    by code_simp
  note r1 = missing_prerequisite_aborts_run
    [of no_cli_world "configure default_invocation", OF disjI1 [OF h1]]
  note r2 = missing_prerequisite_aborts_run
    [of no_cluster_world "configure default_invocation", OF disjI2 [OF h2]]
  from r1 have c1: "exit_code (main (configure default_invocation) no_cli_world) = 1"
    and c2: "updated_services (fst (main (configure default_invocation) no_cli_world)) = []"
    by blast+
  from r2 have c3: "exit_code (main (configure default_invocation) no_cluster_world) = 1"
    and c4: "updated_services (fst (main (configure default_invocation) no_cluster_world)) = []"
    by blast+
  show ?thesis
    by (intro conjI h1 c1 c2 h2 c3 c4)
qed

text \<open>
  C8: the run is deterministic: for a fixed service list and configuration, two runs
  that receive the same answers from the collaborator to the requests of the script
  (prerequisites, trigger, wait, health) end in the same state, output and exit code.
\<close>

theorem run_determined_by_answers:
  assumes "command_v_aws w1 = command_v_aws w2"
    and "\<forall>r\<in>set (script_requests c). aws w1 r = aws w2 r"
  shows "main c w1 = main c w2"
proof -
  have ag: "\<forall>s\<in>set (SERVICES c). agree_on c w1 w2 s"
    using assms(2) by (auto simp: script_requests_def agree_on_def)
  have aw: "\<forall>s\<in>set (SERVICES c). aws w1 (wait_request c s) = aws w2 (wait_request c s)"
    using assms(2) by (auto simp: script_requests_def)
  have pre: "check_prerequisites c w1 = check_prerequisites c w2"
    using assms by (intro check_prerequisites_cong) (simp_all add: script_requests_def)
  have upd: "update_loop c w1 (SERVICES c) st = update_loop c w2 (SERVICES c) st" for st
    using ag by (rule update_loop_cong)
  have wl: "wait_loop c w1 ys st = wait_loop c w2 ys st"
    if "set ys \<subseteq> set (SERVICES c)" for ys st
    using aw that by (intro wait_loop_cong) blast
  have hl: "health_loop c w1 ys st = health_loop c w2 ys st"
    if "set ys \<subseteq> set (SERVICES c)" for ys st
    using ag that by (intro health_loop_cong) blast
  show ?thesis
  proof (cases "snd (check_prerequisites c w2)")
    case (Some code)
    then show ?thesis by (simp add: main_def pre)
  next
    case None
    then show ?thesis
      by (simp add: main_def Let_def pre upd wl hl update_loop_updated wait_loop_updated
            cong: if_cong)
  qed
qed

theorem run_determined_by_answers_witness:
  "command_v_aws steady_world =
     command_v_aws (answering (trial_service ''billing'' Q_status) (0, ''INACTIVE'')) \<and>
   list_all (\<lambda>r. aws steady_world r =
                aws (answering (trial_service ''billing'' Q_status) (0, ''INACTIVE'')) r)
     (script_requests (configure default_invocation)) \<and>
   aws steady_world (trial_service ''billing'' Q_status) \<noteq>
     aws (answering (trial_service ''billing'' Q_status) (0, ''INACTIVE''))
       (trial_service ''billing'' Q_status) \<and>
   main (configure default_invocation) steady_world =
     main (configure default_invocation)
       (answering (trial_service ''billing'' Q_status) (0, ''INACTIVE''))"
proof -
  have h1: "command_v_aws steady_world =
      command_v_aws (answering (trial_service ''billing'' Q_status) (0, ''INACTIVE''))"
    by code_simp
  have h2: "\<forall>r\<in>set (script_requests (configure default_invocation)).
      aws steady_world r =
      aws (answering (trial_service ''billing'' Q_status) (0, ''INACTIVE'')) r"
    by code_simp
  have d: "aws steady_world (trial_service ''billing'' Q_status) \<noteq>
      aws (answering (trial_service ''billing'' Q_status) (0, ''INACTIVE''))
        (trial_service ''billing'' Q_status)"
    by code_simp
  have l2: "list_all (\<lambda>r. aws steady_world r =
                aws (answering (trial_service ''billing'' Q_status) (0, ''INACTIVE'')) r)
      (script_requests (configure default_invocation))"
    using h2 by (simp only: list_all_iff)
  note r = run_determined_by_answers [OF h1 h2]
  show ?thesis
    by (intro conjI h1 l2 d r)
qed

text \<open>
  C9, as stated: without a positional argument the services are auth, users, tasks and
  frontend, in this order; with one positional argument the run processes exactly that
  service. The second part fails for an argument that is the empty string: line 23 tests
  the argument with \<^verbatim>\<open>-z\<close>, and the run processes the four default services.
\<close>

theorem empty_argument_selects_default_fleet:
  "args (default_invocation\<lparr>args := ['''']\<rparr>) = [''''] \<and>
   SERVICES (configure (default_invocation\<lparr>args := ['''']\<rparr>)) =
     [''auth'', ''users'', ''tasks'', ''frontend''] \<and>
   SERVICES (configure (default_invocation\<lparr>args := ['''']\<rparr>)) \<noteq> ['''']"
  by code_simp

text \<open>
  C9, amended: without a positional argument the services are auth, users, tasks and
  frontend; with one non-empty positional argument the service list is exactly that
  service; a run that passes the prerequisite check resolves the status of the services
  of the list one after the other, in list order.
\<close>

theorem services_from_arguments:
  "SERVICES (configure (iv\<lparr>args := []\<rparr>)) = [''auth'', ''users'', ''tasks'', ''frontend''] \<and>
   (a \<noteq> [] \<longrightarrow> SERVICES (configure (iv\<lparr>args := [a]\<rparr>)) = [a]) \<and>
   (prerequisites_met (configure iv) w \<longrightarrow>
      filter is_status (requests (trace (script iv w))) =
        map (status_request (configure iv)) (SERVICES (configure iv)))"
  by (simp add: configure_def positional1_def Let_def script_def main_status_requests)

theorem services_from_arguments_witness:
  "''auth'' \<noteq> [] \<and>
   SERVICES (configure (default_invocation\<lparr>args := [''auth'']\<rparr>)) = [''auth''] \<and>
   prerequisites_met (configure default_invocation) steady_world \<and>
   filter is_status (requests (trace (script default_invocation steady_world))) =
     map (status_request (configure default_invocation))
       (SERVICES (configure default_invocation))"
proof -
  have h1: "''auth'' \<noteq> []"
    by simp
  have h2: "prerequisites_met (configure default_invocation) steady_world"
    by code_simp
  note r = services_from_arguments [of default_invocation "''auth''" steady_world]
  from r h1 have c1: "SERVICES (configure (default_invocation\<lparr>args := [''auth'']\<rparr>)) = [''auth'']"
    by blast
  from r h2 have c2: "filter is_status (requests (trace (script default_invocation steady_world))) =
      map (status_request (configure default_invocation))
        (SERVICES (configure default_invocation))"
    by blast
  show ?thesis
    by (intro conjI h1 c1 h2 c2)
qed

text \<open>
  C10, as stated: the wait phase runs if and only if the wait-for-stable setting is the
  string \<^verbatim>\<open>true\<close> (the default); any other value skips the wait phase and the run is
  judged on the trigger outcomes alone. Two parts fail. With the default setting
  \<^verbatim>\<open>true\<close> and the tasks service draining, the run passes the prerequisite check and
  sends no wait request: line 211 ends it first. With the setting \<^verbatim>\<open>false\<close> and the
  same successful trigger outcomes, the run exits 0 when every service is at its desired
  count and 1 when frontend reports 1 of 2 tasks.
\<close>

theorem wait_setting_alone_does_not_decide:
  "WAIT_FOR_STABLE (configure default_invocation) = ''true'' \<and>
   prerequisites_met (configure default_invocation) tasks_draining_world \<and>
   filter is_wait (requests (trace (script default_invocation tasks_draining_world))) = [] \<and>
   WAIT_FOR_STABLE (configure (default_invocation\<lparr>env_WAIT_FOR_STABLE := Some ''false''\<rparr>)) =
     ''false'' \<and>
   list_all (trigger_succeeds
       (configure (default_invocation\<lparr>env_WAIT_FOR_STABLE := Some ''false''\<rparr>)) steady_world)
     [''auth'', ''users'', ''tasks'', ''frontend''] \<and>
   list_all (trigger_succeeds
       (configure (default_invocation\<lparr>env_WAIT_FOR_STABLE := Some ''false''\<rparr>))
       (answering (trial_service ''frontend'' Q_runningCount) (0, ''1'')))
     [''auth'', ''users'', ''tasks'', ''frontend''] \<and>
   exit_code (script (default_invocation\<lparr>env_WAIT_FOR_STABLE := Some ''false''\<rparr>)
     steady_world) = 0 \<and>
   exit_code (script (default_invocation\<lparr>env_WAIT_FOR_STABLE := Some ''false''\<rparr>)
     (answering (trial_service ''frontend'' Q_runningCount) (0, ''1''))) = 1"
  by code_simp

text \<open>
  C10, amended: the wait phase runs (every service of the list is waited for, in list
  order) if and only if the run passes the prerequisite check, every trigger call returns
  0 and the wait-for-stable setting (the variable of line 20, which is \<^verbatim>\<open>true\<close> when the
  environment variable is unset or empty) is the string \<^verbatim>\<open>true\<close>. The values \<^verbatim>\<open>True\<close>,
  \<^verbatim>\<open>TRUE\<close> and \<^verbatim>\<open>1\<close> are kept as they are and differ from \<^verbatim>\<open>true\<close>. With a setting
  other than \<^verbatim>\<open>true\<close> no wait request is sent and the run does not depend on what the
  wait calls would answer: two collaborators that agree on every other request of the
  script give the same run; the run exits 1 when a trigger call fails; after a complete
  trigger phase no service is recorded as failed, and the run exits 0 when every audit
  call returns 0.
\<close>

theorem wait_phase_gate:
  "filter is_wait (requests (trace (main c w))) =
     (if prerequisites_met c w \<and> (\<forall>s\<in>set (SERVICES c). trigger_succeeds c w s) \<and>
         WAIT_FOR_STABLE c = ''true''
      then map (wait_request c) (SERVICES c) else []) \<and>
   ((filter is_wait (requests (trace (script iv w))) \<noteq> []) =
      (prerequisites_met (configure iv) w \<and>
       (\<forall>s\<in>set (SERVICES (configure iv)). trigger_succeeds (configure iv) w s) \<and>
       WAIT_FOR_STABLE (configure iv) = ''true'')) \<and>
   (WAIT_FOR_STABLE c \<noteq> ''true'' \<and> command_v_aws w = command_v_aws w' \<and>
    (\<forall>r\<in>set (filter (\<lambda>r. \<not> is_wait r) (script_requests c)). aws w r = aws w' r) \<longrightarrow>
      main c w = main c w') \<and>
   (WAIT_FOR_STABLE c \<noteq> ''true'' \<and> (\<exists>s\<in>set (SERVICES c). \<not> trigger_succeeds c w s) \<longrightarrow>
      exit_code (main c w) = 1) \<and>
   (WAIT_FOR_STABLE c \<noteq> ''true'' \<and> prerequisites_met c w \<and>
    (\<forall>s\<in>set (SERVICES c). trigger_succeeds c w s) \<longrightarrow>
      failed_services (fst (main c w)) = [] \<and>
      ((\<forall>s\<in>set (SERVICES c). audit_succeeds c w s) \<longrightarrow> exit_code (main c w) = 0)) \<and>
   WAIT_FOR_STABLE (configure (iv\<lparr>env_WAIT_FOR_STABLE := None\<rparr>)) = ''true'' \<and>
   WAIT_FOR_STABLE (configure (iv\<lparr>env_WAIT_FOR_STABLE := Some ''''\<rparr>)) = ''true'' \<and>
   (v \<in> {''True'', ''TRUE'', ''1''} \<longrightarrow>
      WAIT_FOR_STABLE (configure (iv\<lparr>env_WAIT_FOR_STABLE := Some v\<rparr>)) = v \<and> v \<noteq> ''true'')"
proof -
  have 1: "filter is_wait (requests (trace (main c w))) =
     (if prerequisites_met c w \<and> (\<forall>s\<in>set (SERVICES c). trigger_succeeds c w s) \<and>
         WAIT_FOR_STABLE c = ''true''
      then map (wait_request c) (SERVICES c) else [])"
    by (rule main_wait_requests)
  have 2: "(filter is_wait (requests (trace (script iv w))) \<noteq> []) =
      (prerequisites_met (configure iv) w \<and>
       (\<forall>s\<in>set (SERVICES (configure iv)). trigger_succeeds (configure iv) w s) \<and>
       WAIT_FOR_STABLE (configure iv) = ''true'')"
    using configure_services_nonempty [of iv]
    by (simp add: script_def main_wait_requests)
  have 3: "main c w = main c w'"
    if "WAIT_FOR_STABLE c \<noteq> ''true'' \<and> command_v_aws w = command_v_aws w' \<and>
        (\<forall>r\<in>set (filter (\<lambda>r. \<not> is_wait r) (script_requests c)). aws w r = aws w' r)"
    using that by (intro main_without_wait_cong) blast+
  have 4: "exit_code (main c w) = 1"
    if "WAIT_FOR_STABLE c \<noteq> ''true'' \<and> (\<exists>s\<in>set (SERVICES c). \<not> trigger_succeeds c w s)"
    using that by (intro exit_code_trigger_failed) blast
  have 5: "failed_services (fst (main c w)) = [] \<and>
           ((\<forall>s\<in>set (SERVICES c). audit_succeeds c w s) \<longrightarrow> exit_code (main c w) = 0)"
    if h: "WAIT_FOR_STABLE c \<noteq> ''true'' \<and> prerequisites_met c w \<and>
           (\<forall>s\<in>set (SERVICES c). trigger_succeeds c w s)"
  proof (intro conjI impI)
    from h show "failed_services (fst (main c w)) = []"
      by (simp add: main_triggered_failed wait_failed_def)
    assume a: "\<forall>s\<in>set (SERVICES c). audit_succeeds c w s"
    from h have p: "prerequisites_met c w"
      and t: "\<forall>s\<in>set (SERVICES c). trigger_succeeds c w s"
      and n: "WAIT_FOR_STABLE c \<noteq> ''true'' \<or> (\<forall>s\<in>set (SERVICES c). wait_succeeds c w s)"
      by blast+
    from healthy_run_succeeds [OF p t n a] show "exit_code (main c w) = 0"
      by blast
  qed
  have 6: "WAIT_FOR_STABLE (configure (iv\<lparr>env_WAIT_FOR_STABLE := None\<rparr>)) = ''true''"
    by (simp add: configure_def param_default_def Let_def)
  have 7: "WAIT_FOR_STABLE (configure (iv\<lparr>env_WAIT_FOR_STABLE := Some ''''\<rparr>)) = ''true''"
    by (simp add: configure_def param_default_def Let_def)
  have 8: "WAIT_FOR_STABLE (configure (iv\<lparr>env_WAIT_FOR_STABLE := Some v\<rparr>)) = v \<and> v \<noteq> ''true''"
    if "v \<in> {''True'', ''TRUE'', ''1''}"
    using that by (auto simp: configure_def param_default_def Let_def)
  from 1 2 3 4 5 6 7 8 show ?thesis
    by (intro conjI impI) blast+
qed

theorem wait_phase_gate_witness:
  "WAIT_FOR_STABLE (configure (default_invocation\<lparr>env_WAIT_FOR_STABLE := Some ''TRUE''\<rparr>)) \<noteq> ''true'' \<and>
   command_v_aws steady_world = command_v_aws frontend_timeout_world \<and>
   list_all (\<lambda>r. aws steady_world r = aws frontend_timeout_world r)
     (filter (\<lambda>r. \<not> is_wait r)
        (script_requests (configure (default_invocation\<lparr>env_WAIT_FOR_STABLE := Some ''TRUE''\<rparr>)))) \<and>
   main (configure (default_invocation\<lparr>env_WAIT_FOR_STABLE := Some ''TRUE''\<rparr>)) steady_world =
     main (configure (default_invocation\<lparr>env_WAIT_FOR_STABLE := Some ''TRUE''\<rparr>))
       frontend_timeout_world \<and>
   prerequisites_met (configure (default_invocation\<lparr>env_WAIT_FOR_STABLE := Some ''TRUE''\<rparr>))
     steady_world \<and>
   list_all (trigger_succeeds (configure (default_invocation\<lparr>env_WAIT_FOR_STABLE := Some ''TRUE''\<rparr>))
     steady_world) (SERVICES (configure (default_invocation\<lparr>env_WAIT_FOR_STABLE := Some ''TRUE''\<rparr>))) \<and>
   list_all (audit_succeeds (configure (default_invocation\<lparr>env_WAIT_FOR_STABLE := Some ''TRUE''\<rparr>))
     steady_world) (SERVICES (configure (default_invocation\<lparr>env_WAIT_FOR_STABLE := Some ''TRUE''\<rparr>))) \<and>
   filter is_wait (requests (trace
     (main (configure (default_invocation\<lparr>env_WAIT_FOR_STABLE := Some ''TRUE''\<rparr>)) steady_world))) = [] \<and>
   failed_services (fst
     (main (configure (default_invocation\<lparr>env_WAIT_FOR_STABLE := Some ''TRUE''\<rparr>)) steady_world)) = [] \<and>
   exit_code
     (main (configure (default_invocation\<lparr>env_WAIT_FOR_STABLE := Some ''TRUE''\<rparr>)) steady_world) = 0 \<and>
   list_ex (\<lambda>s. \<not> trigger_succeeds
       (configure (default_invocation\<lparr>env_WAIT_FOR_STABLE := Some ''TRUE''\<rparr>)) tasks_draining_world s)
     (SERVICES (configure (default_invocation\<lparr>env_WAIT_FOR_STABLE := Some ''TRUE''\<rparr>))) \<and>
   exit_code (main (configure (default_invocation\<lparr>env_WAIT_FOR_STABLE := Some ''TRUE''\<rparr>))
     tasks_draining_world) = 1 \<and>
   WAIT_FOR_STABLE (configure default_invocation) = ''true'' \<and>
   prerequisites_met (configure default_invocation) steady_world \<and>
   list_all (trigger_succeeds (configure default_invocation) steady_world)
     (SERVICES (configure default_invocation)) \<and>
   filter is_wait (requests (trace (main (configure default_invocation) steady_world))) =
     map (wait_request (configure default_invocation)) (SERVICES (configure default_invocation)) \<and>
   filter is_wait (requests (trace (script default_invocation steady_world))) \<noteq> [] \<and>
   ''TRUE'' \<in> {''True'', ''TRUE'', ''1''} \<and>
   WAIT_FOR_STABLE (configure (default_invocation\<lparr>env_WAIT_FOR_STABLE := Some ''TRUE''\<rparr>)) = ''TRUE''"
proof -
  let ?d = "configure (default_invocation\<lparr>env_WAIT_FOR_STABLE := Some ''TRUE''\<rparr>)"
  let ?c = "configure default_invocation"
  have n: "WAIT_FOR_STABLE ?d \<noteq> ''true''"
    by code_simp
  have v: "command_v_aws steady_world = command_v_aws frontend_timeout_world"
    by code_simp
  have g: "\<forall>r\<in>set (filter (\<lambda>r. \<not> is_wait r) (script_requests ?d)).
             aws steady_world r = aws frontend_timeout_world r"
    by code_simp
  have p: "prerequisites_met ?d steady_world"
    by code_simp
  have t: "\<forall>s\<in>set (SERVICES ?d). trigger_succeeds ?d steady_world s"
    by code_simp
  have a: "\<forall>s\<in>set (SERVICES ?d). audit_succeeds ?d steady_world s"
    by code_simp
  have f: "\<exists>s\<in>set (SERVICES ?d). \<not> trigger_succeeds ?d tasks_draining_world s"
    by code_simp
  have m: "''TRUE'' \<in> {''True'', ''TRUE'', ''1''}"
    by simp
  have e: "WAIT_FOR_STABLE ?c = ''true''"
    by code_simp
  have q: "prerequisites_met ?c steady_world"
    by code_simp
  have u: "\<forall>s\<in>set (SERVICES ?c). trigger_succeeds ?c steady_world s"
    by code_simp
  note r1 = wait_phase_gate [where c = ?d and w = steady_world and w' = frontend_timeout_world
      and iv = default_invocation and v = "''TRUE''"]
  note r2 = wait_phase_gate [where c = ?d and w = tasks_draining_world
      and w' = tasks_draining_world and iv = default_invocation and v = "''TRUE''"]
  note r3 = wait_phase_gate [where c = ?c and w = steady_world and w' = steady_world
      and iv = default_invocation and v = "''TRUE''"]
  from r1 n v g have c0: "main ?d steady_world = main ?d frontend_timeout_world"
    by blast
  from r1 have "filter is_wait (requests (trace (main ?d steady_world))) =
      (if prerequisites_met ?d steady_world \<and>
          (\<forall>s\<in>set (SERVICES ?d). trigger_succeeds ?d steady_world s) \<and>
          WAIT_FOR_STABLE ?d = ''true''
       then map (wait_request ?d) (SERVICES ?d) else [])"
    by blast
  then have c1: "filter is_wait (requests (trace (main ?d steady_world))) = []"
    using n by simp
  from r1 n p t have c2: "failed_services (fst (main ?d steady_world)) = []"
    by blast
  from r1 n p t a have c3: "exit_code (main ?d steady_world) = 0"
    by blast
  from r2 n f have c4: "exit_code (main ?d tasks_draining_world) = 1"
    by blast
  from r3 have "filter is_wait (requests (trace (main ?c steady_world))) =
      (if prerequisites_met ?c steady_world \<and>
          (\<forall>s\<in>set (SERVICES ?c). trigger_succeeds ?c steady_world s) \<and>
          WAIT_FOR_STABLE ?c = ''true''
       then map (wait_request ?c) (SERVICES ?c) else [])"
    by blast
  then have c5: "filter is_wait (requests (trace (main ?c steady_world))) =
      map (wait_request ?c) (SERVICES ?c)"
    using e q u by simp
  from r3 e q u have c6: "filter is_wait (requests (trace (script default_invocation steady_world))) \<noteq> []"
    by blast
  from r1 m have c7: "WAIT_FOR_STABLE ?d = ''TRUE''"
    by simp
  have lg: "list_all (\<lambda>r. aws steady_world r = aws frontend_timeout_world r)
      (filter (\<lambda>r. \<not> is_wait r) (script_requests ?d))"
    using g by (simp only: list_all_iff)
  have lt: "list_all (trigger_succeeds ?d steady_world) (SERVICES ?d)"
    using t by (simp only: list_all_iff)
  have la: "list_all (audit_succeeds ?d steady_world) (SERVICES ?d)"
    using a by (simp only: list_all_iff)
  have lf: "list_ex (\<lambda>s. \<not> trigger_succeeds ?d tasks_draining_world s) (SERVICES ?d)"
    using f by (simp only: list_ex_iff)
  have lu: "list_all (trigger_succeeds ?c steady_world) (SERVICES ?c)"
    using u by (simp only: list_all_iff)
  show ?thesis
    by (intro conjI n v lg c0 p lt la c1 c2 c3 lf c4 e q lu c5 c6 m c7)
qed

end
